theory Spec2Isabelle
  imports Complex_Main
begin

section \<open>Conventions of the embedding\<close>

text \<open>
  The repository (package \<^verbatim>\<open>scanning\<close>) computes with Python floats and numpy arrays.
  The embedding works in exact arithmetic: a float is a \<^typ>\<open>real\<close>, a Python \<^verbatim>\<open>int\<close> is an
  \<^typ>\<open>int\<close>, a numpy array or a DataFrame column is a list. Rounding, overflow and NaN
  propagation of IEEE arithmetic are therefore outside the model; every exception the
  source can raise on the modelled paths is a value of \<open>py_error\<close>, and a function that
  can raise returns \<open>py_error + 'a\<close> with \<open>Inl\<close> for the exception.

  \<open>NonFinite\<close> is not a Python exception: where numpy divides by a zero or leaves the
  domain of a function it stores an infinity or a NaN in the array (with a warning) and
  goes on. The reals have neither value, so the model stops at the first such sample and
  reports \<open>NonFinite\<close>.
\<close>

datatype py_error =
    ValueError
  | TypeError
  | IndexError
  | KeyError
  | ZeroDivisionError
  | AssertionError
  | UnboundLocalError
  | AttributeError
  | OverflowError
  | NonFinite

text \<open>
  Python's \<^verbatim>\<open>x % m\<close> on floats (and numpy's on arrays) for a non-zero modulus: the result
  has the sign of the modulus, \<open>x - m * floor (x / m)\<close>. The source only ever uses the
  constant modulus 360.
\<close>

definition pymod :: "real \<Rightarrow> real \<Rightarrow> real" where
  "pymod x m = x - m * of_int \<lfloor>x / m\<rfloor>"

section \<open>AngleNormalizer: \<^verbatim>\<open>TelescopePattern._norm_angle\<close>\<close>

text \<open>
  \<^verbatim>\<open>
  def _norm_angle(self, az):
      lowest_az = az[0]%360 - 180
      return (az - lowest_az)%(360) + lowest_az
  \<close>
  \<^verbatim>\<open>az[0]\<close> on an empty array raises IndexError.
\<close>

definition norm_angle :: "real list \<Rightarrow> py_error + real list" where
  "norm_angle az =
     (case az of
        [] \<Rightarrow> Inl IndexError
      | a0 # _ \<Rightarrow>
          (let lowest_az = pymod a0 360 - 180
           in Inr (map (\<lambda>a. pymod (a - lowest_az) 360 + lowest_az) az)))"

section \<open>Errors, division and samples\<close>

text \<open>Sequencing of computations that can raise: the first exception wins.\<close>

definition bind_err :: "py_error + 'a \<Rightarrow> ('a \<Rightarrow> py_error + 'b) \<Rightarrow> py_error + 'b" where
  "bind_err m f = (case m of Inl e \<Rightarrow> Inl e | Inr v \<Rightarrow> f v)"

text \<open>Python's float division raises ZeroDivisionError on a zero divisor.\<close>

definition pydiv :: "real \<Rightarrow> real \<Rightarrow> py_error + real" where
  "pydiv a b = (if b = 0 then Inl ZeroDivisionError else Inr (a / b))"

text \<open>Whether a key is present in a keyword dictionary (\<^verbatim>\<open>'k' in kwargs.keys()\<close>).\<close>

fun present :: "'a option \<Rightarrow> bool" where
  "present None = False"
| "present (Some _) = True"

text \<open>
  A row of the sky-plane DataFrame: \<^verbatim>\<open>(time_offset, x_coord, y_coord)\<close>.
\<close>

type_synonym sample = "real \<times> real \<times> real"

definition time_offset :: "sample \<Rightarrow> real" where
  "time_offset s = fst s"

section \<open>PatternGenerator, Pong: vertex counts\<close>

text \<open>
  The same lines open \<^verbatim>\<open>Pong._generate_scan\<close> (coordinates.py) and
  \<^verbatim>\<open>CurvyPong._generate_scan\<close> (scanning.py):
  \<^verbatim>\<open>
  vert_spacing = sqrt(2)*spacing
  x_numvert = math.ceil(width/vert_spacing)
  y_numvert = math.ceil(height/vert_spacing)
  if x_numvert%2 == y_numvert%2:
      if x_numvert >= y_numvert:
          y_numvert += 1
      else:
          x_numvert += 1
  num_vert = [x_numvert, y_numvert]
  most_i = num_vert.index(max(x_numvert, y_numvert))
  least_i = num_vert.index(min(x_numvert, y_numvert))
  while math.gcd(num_vert[most_i], num_vert[least_i]) != 1:
      num_vert[most_i] += 2
  x_numvert = num_vert[0]
  y_numvert = num_vert[1]
  assert(math.gcd(x_numvert, y_numvert) == 1)
  assert((x_numvert%2 == 0 and y_numvert%2 == 1) or (x_numvert%2 == 1 and y_numvert%2 == 0))
  \<close>
  The \<^verbatim>\<open>while\<close> loop has no bound, so it is a partial function: \<open>None\<close> is a loop that
  never ends.
\<close>

definition vert_spacing_of :: "real \<Rightarrow> real" where
  "vert_spacing_of spacing = sqrt 2 * spacing"

definition parity_adjust :: "int \<Rightarrow> int \<Rightarrow> int \<times> int" where
  "parity_adjust x_numvert y_numvert =
     (if x_numvert mod 2 = y_numvert mod 2
      then (if x_numvert \<ge> y_numvert then (x_numvert, y_numvert + 1)
            else (x_numvert + 1, y_numvert))
      else (x_numvert, y_numvert))"

text \<open>\<^verbatim>\<open>[x, y].index(v)\<close> for a value \<open>v\<close> that is one of the two: the first position holding it.\<close>

definition index2 :: "int \<Rightarrow> int \<Rightarrow> int \<Rightarrow> nat" where
  "index2 x y v = (if x = v then 0 else 1)"

partial_function (option) gcd_loop :: "int list \<Rightarrow> nat \<Rightarrow> nat \<Rightarrow> int list option" where
  "gcd_loop num_vert most_i least_i =
     (if gcd (num_vert ! most_i) (num_vert ! least_i) = 1
      then Some num_vert
      else gcd_loop (num_vert[most_i := num_vert ! most_i + 2]) most_i least_i)"

definition check_numvert :: "int \<Rightarrow> int \<Rightarrow> py_error + int \<times> int" where
  "check_numvert x_numvert y_numvert =
     (if gcd x_numvert y_numvert = 1
      then (if (x_numvert mod 2 = 0 \<and> y_numvert mod 2 = 1) \<or>
               (x_numvert mod 2 = 1 \<and> y_numvert mod 2 = 0)
            then Inr (x_numvert, y_numvert)
            else Inl AssertionError)
      else Inl AssertionError)"

definition pong_numvert :: "real \<Rightarrow> real \<Rightarrow> real \<Rightarrow> (py_error + int \<times> int) option" where
  "pong_numvert width height spacing =
     (let vert_spacing = vert_spacing_of spacing
      in if vert_spacing = 0 then Some (Inl ZeroDivisionError)
         else
           (let (x_numvert, y_numvert) =
                  parity_adjust \<lceil>width / vert_spacing\<rceil> \<lceil>height / vert_spacing\<rceil>;
                most_i = index2 x_numvert y_numvert (max x_numvert y_numvert);
                least_i = index2 x_numvert y_numvert (min x_numvert y_numvert)
            in case gcd_loop [x_numvert, y_numvert] most_i least_i of
                 None \<Rightarrow> None
               | Some num_vert \<Rightarrow> Some (check_numvert (num_vert ! 0) (num_vert ! 1))))"

section \<open>RepeatTiler: \<^verbatim>\<open>SkyPattern._clean_param\<close> and \<^verbatim>\<open>SkyPattern._repeat_scan\<close>\<close>

text \<open>
  \<^verbatim>\<open>param['num_repeat']\<close> is either an integer or the float \<^verbatim>\<open>math.nan\<close>, which
  \<^verbatim>\<open>_clean_param\<close> stores as a marker that the count has to be derived from
  \<^verbatim>\<open>max_scan_duration\<close>. Keyword arguments are optional values; \<^verbatim>\<open>num_repeat\<close> is taken as
  an integer (the source applies \<^verbatim>\<open>int()\<close> to it).
  \<^verbatim>\<open>
  def _clean_param(self, **kwargs):
      kwarg_keys = kwargs.keys()
      if self.repeatable:
          if 'max_scan_duration' in kwarg_keys and 'num_repeat' in kwarg_keys:
              raise ValueError(...)
          elif 'max_scan_duration' in kwarg_keys:
              kwargs['num_repeat'] = math.nan
              kwargs['max_scan_duration'] = u.Quantity(kwargs['max_scan_duration'], u.s).value
          else:
              kwargs['num_repeat'] = int(kwargs.get('num_repeat', 1))
      else:
          if 'max_scan_duration' in kwarg_keys or 'num_repeat' in kwarg_keys:
              raise ValueError(...)
          kwargs['num_repeat'] = 1
      return kwargs
  \<close>
  The result is the pair of the two entries \<^verbatim>\<open>num_repeat\<close> and \<^verbatim>\<open>max_scan_duration\<close> of the
  returned dictionary.
\<close>

datatype num_repeat_val = Count int | NaN

definition SkyPattern_clean_param ::
    "bool \<Rightarrow> real option \<Rightarrow> int option \<Rightarrow> py_error + num_repeat_val \<times> real option" where
  "SkyPattern_clean_param repeatable kw_max_scan_duration kw_num_repeat =
     (if repeatable then
        (if present kw_max_scan_duration \<and> present kw_num_repeat then Inl ValueError
         else if present kw_max_scan_duration then Inr (NaN, kw_max_scan_duration)
         else Inr (Count (case kw_num_repeat of None \<Rightarrow> 1 | Some n \<Rightarrow> n), None))
      else
        (if present kw_max_scan_duration then Inl ValueError
         else if present kw_num_repeat then Inl ValueError
         else Inr (Count 1, None)))"

text \<open>
  \<^verbatim>\<open>
  def _repeat_scan(self, data):
      one_scan_duration = data.iloc[-1]['time_offset'] + self.sample_interval.value
      num_repeat = self.num_repeat
      if math.isnan(num_repeat):
          max_scan_duration = self.param.pop('max_scan_duration')
          num_repeat = math.floor(max_scan_duration/one_scan_duration)
          if num_repeat < 1:
              raise ValueError(...)
          self.param['num_repeat'] = num_repeat
      time_offset = data['time_offset']
      if num_repeat > 1:
          data_temp = data.copy()
          for i in range(1, num_repeat):
              data_temp['time_offset'] = time_offset + one_scan_duration*i
              data = data.append(data_temp, ignore_index=True)
      return data
  \<close>
  The model returns the number of repeats left in \<^verbatim>\<open>self.param\<close> together with the data.
\<close>

definition shift_time :: "real \<Rightarrow> sample list \<Rightarrow> sample list" where
  "shift_time d data = map (\<lambda>(t, x, y). (t + d, x, y)) data"

definition resolve_num_repeat :: "num_repeat_val \<Rightarrow> real option \<Rightarrow> real \<Rightarrow> py_error + int" where
  "resolve_num_repeat num_repeat max_scan_duration one_scan_duration =
     (case num_repeat of
        Count n \<Rightarrow> Inr n
      | NaN \<Rightarrow>
          (case max_scan_duration of
             None \<Rightarrow> Inl KeyError
           | Some msd \<Rightarrow>
               bind_err (pydiv msd one_scan_duration) (\<lambda>q.
                 if \<lfloor>q\<rfloor> < 1 then Inl ValueError else Inr \<lfloor>q\<rfloor>)))"

definition repeat_scan ::
    "real \<Rightarrow> num_repeat_val \<Rightarrow> real option \<Rightarrow> sample list \<Rightarrow> py_error + int \<times> sample list" where
  "repeat_scan sample_interval num_repeat max_scan_duration data =
     (case data of
        [] \<Rightarrow> Inl IndexError
      | _ # _ \<Rightarrow>
          (let one_scan_duration = time_offset (last data) + sample_interval
           in bind_err (resolve_num_repeat num_repeat max_scan_duration one_scan_duration)
                (\<lambda>n. Inr (n, foldl (\<lambda>d i. d @ shift_time (one_scan_duration * of_nat i) data)
                                data [1..<nat n]))))"

section \<open>\<^verbatim>\<open>SkyPattern.__init__\<close>\<close>

text \<open>
  \<^verbatim>\<open>
  sample_interval_list = np.diff(data['time_offset'].to_numpy())
  if np.std(sample_interval_list)/np.mean(sample_interval_list) <= 0.01:
      sample_interval = np.mean(sample_interval_list)
  else:
      raise ValueError('sample_interval must be constant')
  kwargs['sample_interval'] = sample_interval
  self.param = self._clean_param(**kwargs)
  self.data = self._repeat_scan(data)
  \<close>
  With fewer than two rows, or with mean 0, numpy's quotient is NaN or infinite, the
  comparison is false and the ValueError is raised.
\<close>

definition np_diff :: "real list \<Rightarrow> real list" where
  "np_diff ts = map (\<lambda>(a, b). b - a) (zip ts (tl ts))"

definition np_mean :: "real list \<Rightarrow> real" where
  "np_mean ds = sum_list ds / of_nat (length ds)"

definition np_std :: "real list \<Rightarrow> real" where
  "np_std ds = sqrt (np_mean (map (\<lambda>d. (d - np_mean ds)\<^sup>2) ds))"

definition sample_interval_of :: "sample list \<Rightarrow> py_error + real" where
  "sample_interval_of data =
     (let sample_interval_list = np_diff (map time_offset data)
      in if sample_interval_list = [] then Inl ValueError
         else if np_mean sample_interval_list = 0 then Inl ValueError
         else if np_std sample_interval_list / np_mean sample_interval_list \<le> 1 / 100
              then Inr (np_mean sample_interval_list)
              else Inl ValueError)"

definition SkyPattern_init ::
    "sample list \<Rightarrow> bool \<Rightarrow> real option \<Rightarrow> int option \<Rightarrow> py_error + int \<times> sample list" where
  "SkyPattern_init data repeatable kw_max_scan_duration kw_num_repeat =
     bind_err (sample_interval_of data) (\<lambda>sample_interval.
     bind_err (SkyPattern_clean_param repeatable kw_max_scan_duration kw_num_repeat)
       (\<lambda>(num_repeat, max_scan_duration).
          repeat_scan sample_interval num_repeat max_scan_duration data))"

section \<open>Fourier series and the sampling loop of the Pong generators\<close>

text \<open>\<^verbatim>\<open>kwargs['k']\<close> raises KeyError on a missing key; \<^verbatim>\<open>kwargs.get('k', d)\<close> does not.\<close>

definition required :: "'a option \<Rightarrow> py_error + 'a" where
  "required v = (case v of None \<Rightarrow> Inl KeyError | Some x \<Rightarrow> Inr x)"

definition get_default :: "'a option \<Rightarrow> 'a \<Rightarrow> 'a" where
  "get_default v d = (case v of None \<Rightarrow> d | Some x \<Rightarrow> x)"

text \<open>
  \<^verbatim>\<open>
  def _fourier_expansion(self, num_term, amp, t_count, peri):
      N = num_term*2 - 1
      a = (8*amp)/(pi**2)
      b = 2*pi/peri
      pos = 0
      for n in range(1, N+1, 2):
          c = math.pow(-1, (n-1)/2)/n**2
          pos += c * sin(b*n*t_count)
      pos *= a
      return pos
  \<close>
  \<^verbatim>\<open>range(1, N+1, 2)\<close> is the list of the first \<open>num_term\<close> odd numbers.
\<close>

definition odd_range :: "int \<Rightarrow> int list" where
  "odd_range num_term = map (\<lambda>k. 2 * int k + 1) [0..<nat num_term]"

definition fourier_c :: "int \<Rightarrow> real" where
  "fourier_c n = (- 1) ^ nat ((n - 1) div 2) / (of_int n)\<^sup>2"

definition fourier_expansion :: "int \<Rightarrow> real \<Rightarrow> real \<Rightarrow> real \<Rightarrow> py_error + real" where
  "fourier_expansion num_term amp t_count peri =
     (let a = (8 * amp) / pi\<^sup>2
      in bind_err (pydiv (2 * pi) peri) (\<lambda>b.
           Inr (foldl (\<lambda>pos n. pos + fourier_c n * sin (b * of_int n * t_count)) 0
                  (odd_range num_term) * a)))"

text \<open>
  \<^verbatim>\<open>CurvyPong._fourier_expansion\<close> also returns the term-wise derivatives:
  \<^verbatim>\<open>
  pos = vel = acc = jer = 0
  for n in range(1, N+1, 2):
      c = math.pow(-1, (n-1)/2)/n**2
      pos += c * sin(b*n*t_count)
      vel += c*n * cos(b*n*t_count)
      acc += c*n**2 * sin(b*n*t_count)
      jer += c*n**3 * cos(b*n*t_count)
  pos *= a
  vel *= a*b
  acc *= -a*b**2
  jer *= -a*b**3
  return pos, vel, acc, jer
  \<close>
\<close>

definition fourier_step :: "real \<Rightarrow> real \<Rightarrow> real \<times> real \<times> real \<times> real \<Rightarrow> int \<Rightarrow> real \<times> real \<times> real \<times> real" where
  "fourier_step b t_count s n =
     (case s of (pos, vel, acc, jer) \<Rightarrow>
        (pos + fourier_c n * sin (b * of_int n * t_count),
         vel + fourier_c n * of_int n * cos (b * of_int n * t_count),
         acc + fourier_c n * (of_int n)\<^sup>2 * sin (b * of_int n * t_count),
         jer + fourier_c n * (of_int n) ^ 3 * cos (b * of_int n * t_count)))"

definition CurvyPong_fourier_expansion ::
    "int \<Rightarrow> real \<Rightarrow> real \<Rightarrow> real \<Rightarrow> py_error + real \<times> real \<times> real \<times> real" where
  "CurvyPong_fourier_expansion num_term amp t_count peri =
     (let a = (8 * amp) / pi\<^sup>2
      in bind_err (pydiv (2 * pi) peri) (\<lambda>b.
           case foldl (fourier_step b t_count) (0, 0, 0, 0) (odd_range num_term) of
             (pos, vel, acc, jer) \<Rightarrow>
               Inr (pos * a, vel * (a * b), acc * (- a * b\<^sup>2), jer * (- a * b ^ 3))))"

definition rot_x :: "real \<Rightarrow> real \<Rightarrow> real \<Rightarrow> real" where
  "rot_x a x y = x * cos a - y * sin a"

definition rot_y :: "real \<Rightarrow> real \<Rightarrow> real \<Rightarrow> real" where
  "rot_y a x y = x * sin a + y * cos a"

text \<open>
  The sampling loop of both generators: \<open>count\<close> rows, the first at \<open>t_count\<close>, each next
  one \<open>sample_interval\<close> later.
  \<^verbatim>\<open>
  t_count = 0
  for i in range(pongcount):
      x_coord1 = self._fourier_expansion(num_term, amp_x, t_count, peri_x)
      y_coord1 = self._fourier_expansion(num_term, amp_y, t_count, peri_y)
      x_coord.append(x_coord1*cos(angle) - y_coord1*sin(angle))
      y_coord.append(x_coord1*sin(angle) + y_coord1*cos(angle))
      time_offset.append(t_count)
      t_count += sample_interval
  \<close>
\<close>

fun pong_loop :: "nat \<Rightarrow> real \<Rightarrow> real \<Rightarrow> (real \<Rightarrow> py_error + 'r) \<Rightarrow> py_error + 'r list" where
  "pong_loop 0 t_count sample_interval row = Inr []"
| "pong_loop (Suc count) t_count sample_interval row =
     bind_err (row t_count) (\<lambda>r.
     bind_err (pong_loop count (t_count + sample_interval) sample_interval row) (\<lambda>rs.
       Inr (r # rs)))"

section \<open>PatternGenerator, Pong: periods, Fourier series and sampling\<close>

text \<open>
  The keyword dictionary of \<^verbatim>\<open>Pong\<close> (also the dictionary \<^verbatim>\<open>param_json\<close>): every key is
  optional.
\<close>

record pong_kwargs =
  kw_num_term :: "int option"
  kw_width :: "real option"
  kw_height :: "real option"
  kw_spacing :: "real option"
  kw_velocity :: "real option"
  kw_angle :: "real option"
  kw_sample_interval :: "real option"
  kw_max_scan_duration :: "real option"
  kw_num_repeat :: "int option"

text \<open>
  The parameters that both generators unpack (\<^verbatim>\<open>angle\<close> in degrees), and the cleaned
  parameter dictionary of \<^verbatim>\<open>Pong\<close>, which adds the repeat control.
\<close>

record scan_param =
  num_term :: int
  width :: real
  height :: real
  spacing :: real
  velocity :: real
  angle :: real
  sample_interval :: real

record pong_param = scan_param +
  num_repeat :: num_repeat_val
  max_scan_duration :: "real option"

record pong_timing =
  vavg :: real
  peri_x :: real
  peri_y :: real
  period :: real
  pongcount :: int
  amp_x :: real
  amp_y :: real

record curvy_row =
  row_time_offset :: real
  row_x_coord :: real
  row_y_coord :: real
  row_x_vel :: real
  row_y_vel :: real
  row_x_acc :: real
  row_y_acc :: real
  row_x_jerk :: real
  row_y_jerk :: real


text \<open>
  The periods. \<^verbatim>\<open>Pong\<close> (coordinates.py) and \<^verbatim>\<open>CurvyPong\<close> (scanning.py) differ in one line:
  \<^verbatim>\<open>
  vavg = velocity/sqrt(2) # changed so velocity is TOTAL velocity and vavg is single-direction velocity
  \<close>
  in \<^verbatim>\<open>Pong\<close>, and \<^verbatim>\<open>vavg = velocity\<close> in \<^verbatim>\<open>CurvyPong\<close>. Both continue with
  \<^verbatim>\<open>
  peri_x = x_numvert * vert_spacing * 2 / vavg
  peri_y = y_numvert * vert_spacing * 2 / vavg
  period = x_numvert * y_numvert * vert_spacing * 2 / vavg
  pongcount = math.ceil(period/sample_interval)
  amp_x = x_numvert * vert_spacing / 2
  amp_y = y_numvert * vert_spacing / 2
  \<close>
\<close>

definition Pong_vavg :: "real \<Rightarrow> real" where
  "Pong_vavg v = v / sqrt 2"

definition CurvyPong_vavg :: "real \<Rightarrow> real" where
  "CurvyPong_vavg v = v"

definition pong_periods :: "real \<Rightarrow> real \<Rightarrow> real \<Rightarrow> int \<Rightarrow> int \<Rightarrow> py_error + pong_timing" where
  "pong_periods va dt vert_spacing x_numvert y_numvert =
     bind_err (pydiv (of_int x_numvert * vert_spacing * 2) va) (\<lambda>px.
     bind_err (pydiv (of_int y_numvert * vert_spacing * 2) va) (\<lambda>py.
     bind_err (pydiv (of_int (x_numvert * y_numvert) * vert_spacing * 2) va) (\<lambda>pd.
     bind_err (pydiv pd dt) (\<lambda>q.
       Inr \<lparr>vavg = va, peri_x = px, peri_y = py, period = pd,
            pongcount = \<lceil>q\<rceil>,
            amp_x = of_int x_numvert * vert_spacing / 2,
            amp_y = of_int y_numvert * vert_spacing / 2\<rparr>))))"

definition Pong_row :: "int \<Rightarrow> pong_timing \<Rightarrow> real \<Rightarrow> real \<Rightarrow> py_error + sample" where
  "Pong_row nterm t angle_rad t_count =
     bind_err (fourier_expansion nterm (amp_x t) t_count (peri_x t)) (\<lambda>x_coord1.
     bind_err (fourier_expansion nterm (amp_y t) t_count (peri_y t)) (\<lambda>y_coord1.
       Inr (t_count,
            x_coord1 * cos angle_rad - y_coord1 * sin angle_rad,
            x_coord1 * sin angle_rad + y_coord1 * cos angle_rad)))"

text \<open>One period of \<^verbatim>\<open>Pong\<close>: the DataFrame built before \<^verbatim>\<open>self._repeat_scan(data)\<close>.\<close>

definition Pong_one_period :: "'a scan_param_scheme \<Rightarrow> (py_error + pong_timing \<times> sample list) option" where
  "Pong_one_period p =
     (case pong_numvert (width p) (height p) (spacing p) of
        None \<Rightarrow> None
      | Some nv \<Rightarrow> Some (
          bind_err nv (\<lambda>(x_numvert, y_numvert).
          bind_err (pong_periods (Pong_vavg (velocity p)) (sample_interval p)
                      (vert_spacing_of (spacing p)) x_numvert y_numvert) (\<lambda>t.
          bind_err (pong_loop (nat (pongcount t)) 0 (sample_interval p)
                      (Pong_row (num_term p) t (angle p * pi / 180))) (\<lambda>data.
            Inr (t, data))))))"






section \<open>PatternGenerator, CurvyPong (scanning.py)\<close>

definition CurvyPong_row :: "int \<Rightarrow> pong_timing \<Rightarrow> real \<Rightarrow> real \<Rightarrow> py_error + curvy_row" where
  "CurvyPong_row nterm t a t_count =
     bind_err (CurvyPong_fourier_expansion nterm (amp_x t) t_count (peri_x t))
       (\<lambda>(x_pos, x_vel, x_acc, x_jerk).
     bind_err (CurvyPong_fourier_expansion nterm (amp_y t) t_count (peri_y t))
       (\<lambda>(y_pos, y_vel, y_acc, y_jerk).
       Inr \<lparr>row_time_offset = t_count,
            row_x_coord = rot_x a x_pos y_pos, row_y_coord = rot_y a x_pos y_pos,
            row_x_vel = rot_x a x_vel y_vel, row_y_vel = rot_y a x_vel y_vel,
            row_x_acc = rot_x a x_acc y_acc, row_y_acc = rot_y a x_acc y_acc,
            row_x_jerk = rot_x a x_jerk y_jerk, row_y_jerk = rot_y a x_jerk y_jerk\<rparr>))"

text \<open>
  \<^verbatim>\<open>CurvyPong._generate_scan\<close>: the columns are allocated with \<^verbatim>\<open>np.empty(pongcount)\<close>, which
  raises ValueError on a negative count, and filled by the same loop; there is no repeat.
\<close>

definition CurvyPong_generate_scan ::
    "'a scan_param_scheme \<Rightarrow> (py_error + pong_timing \<times> curvy_row list) option" where
  "CurvyPong_generate_scan p =
     (case pong_numvert (width p) (height p) (spacing p) of
        None \<Rightarrow> None
      | Some nv \<Rightarrow> Some (
          bind_err nv (\<lambda>(x_numvert, y_numvert).
          bind_err (pong_periods (CurvyPong_vavg (velocity p)) (sample_interval p)
                      (vert_spacing_of (spacing p)) x_numvert y_numvert) (\<lambda>t.
          if pongcount t < 0 then Inl ValueError
          else
            bind_err (pong_loop (nat (pongcount t)) 0 (sample_interval p)
                        (CurvyPong_row (num_term p) t (angle p * pi / 180))) (\<lambda>data.
              Inr (t, data))))))"

text \<open>
  The parameters of the end-to-end scenario of the specification: width 2, height 1.5,
  spacing 0.1 (degrees), velocity 0.5 degrees per second, five terms, one sample every
  0.01 s, no rotation.
\<close>

definition scenario_param :: scan_param where
  "scenario_param =
     \<lparr>num_term = 5, width = 2, height = 3 / 2, spacing = 1 / 10, velocity = 1 / 2,
      angle = 0, sample_interval = 1 / 100\<rparr>"

section \<open>PatternGenerator, Daisy\<close>

text \<open>
  The keyword dictionary of \<^verbatim>\<open>Daisy\<close>. Besides the keys that \<^verbatim>\<open>Daisy._clean_param\<close> reads
  it records the two repeat keys, which a caller can pass like any other keyword.
\<close>

record daisy_kwargs =
  dkw_velocity :: "real option"
  dkw_start_acc :: "real option"
  dkw_R0 :: "real option"
  dkw_Rt :: "real option"
  dkw_Ra :: "real option"
  dkw_T :: "real option"
  dkw_sample_interval :: "real option"
  dkw_y_offset :: "real option"
  dkw_max_scan_duration :: "real option"
  dkw_num_repeat :: "int option"

text \<open>The cleaned dictionary \<^verbatim>\<open>self.param\<close> of \<^verbatim>\<open>Daisy\<close> (angles in degrees).\<close>

record daisy_param =
  daisy_velocity :: real
  daisy_start_acc :: real
  daisy_R0 :: real
  daisy_Rt :: real
  daisy_Ra :: real
  daisy_T :: real
  daisy_sample_interval :: real
  daisy_y_offset :: real
  daisy_max_scan_duration :: "real option"
  daisy_num_repeat :: "int option"

text \<open>
  \<^verbatim>\<open>
  class Daisy(SkyPattern):
      repeatable=False
      def _clean_param(self, **kwargs):
          kwargs['velocity'] = u.Quantity(kwargs['velocity'], u.deg/u.s).value
          kwargs['start_acc'] = u.Quantity(kwargs['start_acc'], u.deg/u.s/u.s).value
          kwargs['R0'] = u.Quantity(kwargs['R0'], u.deg).value
          kwargs['Rt'] = u.Quantity(kwargs['Rt'], u.deg).value
          kwargs['Ra'] = u.Quantity(kwargs['Ra'], u.deg).value
          kwargs['T'] = u.Quantity(kwargs['T'], u.s).value
          kwargs['sample_interval'] = u.Quantity(kwargs.get('sample_interval', 1/400), u.s).value
          kwargs['y_offset'] = u.Quantity(kwargs.get('y_offset', 0), u.deg).value
          return kwargs
  \<close>
  Unlike \<^verbatim>\<open>Pong._clean_param\<close> it does not call \<^verbatim>\<open>super()._clean_param\<close>: every other key
  stays in the dictionary as it was passed.
\<close>

definition Daisy_clean_param :: "daisy_kwargs \<Rightarrow> py_error + daisy_param" where
  "Daisy_clean_param kwargs =
     bind_err (required (dkw_velocity kwargs)) (\<lambda>v.
     bind_err (required (dkw_start_acc kwargs)) (\<lambda>a.
     bind_err (required (dkw_R0 kwargs)) (\<lambda>r0.
     bind_err (required (dkw_Rt kwargs)) (\<lambda>rt.
     bind_err (required (dkw_Ra kwargs)) (\<lambda>ra.
     bind_err (required (dkw_T kwargs)) (\<lambda>t.
       Inr \<lparr>daisy_velocity = v, daisy_start_acc = a, daisy_R0 = r0, daisy_Rt = rt,
            daisy_Ra = ra, daisy_T = t,
            daisy_sample_interval = get_default (dkw_sample_interval kwargs) (1 / 400),
            daisy_y_offset = get_default (dkw_y_offset kwargs) 0,
            daisy_max_scan_duration = dkw_max_scan_duration kwargs,
            daisy_num_repeat = dkw_num_repeat kwargs\<rparr>))))))"

text \<open>
  The state of the integration loop is \<open>(x, y, vx, vy, speed)\<close>. One pass of the loop body
  (the same lines in coordinates.py and in scanning.py, which also stores
  \<^verbatim>\<open>speed*vx\<close> and \<^verbatim>\<open>speed*vy\<close>):
  \<^verbatim>\<open>
  speed += start_acc*dt
  if speed >= s0:
      speed = s0
  r = sqrt(x*x + y*y)
  if r < R0:
      x += vx*speed*dt
      y += vy*speed*dt
  else:
      (xn,yn) = (x/r,y/r)
      if (-xn*vx - yn*vy) > sqrt(1 - Ra*Ra/r/r):
          x += vx*speed*dt
          y += vy*speed*dt
      else:
          if (-xn*vy + yn*vx) > 0:
              Nx = vy
              Ny = -vx
          else:
              Nx = -vy
              Ny = vx
          s = speed*dt
          x += (s - s*s*s/Rt/Rt/6)*vx + s*s/Rt/2*Nx
          y += (s - s*s*s/Rt/Rt/6)*vy + s*s/Rt/2*Ny
          vx += -s*s/Rt/Rt/2*vx + (s/Rt + s*s*s/Rt/Rt/Rt/6)*Nx
          vy += -s*s/Rt/Rt/2*vy + (s/Rt + s*s*s/Rt/Rt/Rt/6)*Ny
  \<close>
  A division whose divisor is zero is the value \<open>ZeroDivisionError\<close> (Python floats raise
  it; numpy scalars give an infinity or a NaN with a warning). \<^verbatim>\<open>sqrt\<close> is \<^verbatim>\<open>math.sqrt\<close>,
  which raises ValueError on a negative argument.
\<close>

type_synonym daisy_state = "real \<times> real \<times> real \<times> real \<times> real"

definition math_sqrt :: "real \<Rightarrow> py_error + real" where
  "math_sqrt a = (if a < 0 then Inl ValueError else Inr (sqrt a))"

definition ramp_speed :: "real \<Rightarrow> real \<Rightarrow> real \<Rightarrow> real \<Rightarrow> real" where
  "ramp_speed s0 start_acc dt speed =
     (if speed + start_acc * dt \<ge> s0 then s0 else speed + start_acc * dt)"

definition straight_motion :: "real \<Rightarrow> daisy_state \<Rightarrow> daisy_state" where
  "straight_motion dt st =
     (case st of (x, y, vx, vy, speed) \<Rightarrow> (x + vx * speed * dt, y + vy * speed * dt, vx, vy, speed))"

definition curved_motion :: "real \<Rightarrow> real \<Rightarrow> real \<Rightarrow> real \<Rightarrow> daisy_state \<Rightarrow> py_error + daisy_state" where
  "curved_motion Rt dt Nx Ny st =
     (case st of (x, y, vx, vy, speed) \<Rightarrow>
        (let s = speed * dt
         in if Rt = 0 then Inl ZeroDivisionError
            else Inr (x + ((s - s * s * s / Rt / Rt / 6) * vx + s * s / Rt / 2 * Nx),
                      y + ((s - s * s * s / Rt / Rt / 6) * vy + s * s / Rt / 2 * Ny),
                      vx + (- s * s / Rt / Rt / 2 * vx + (s / Rt + s * s * s / Rt / Rt / Rt / 6) * Nx),
                      vy + (- s * s / Rt / Rt / 2 * vy + (s / Rt + s * s * s / Rt / Rt / Rt / 6) * Ny),
                      speed)))"

definition motion_outside :: "real \<Rightarrow> real \<Rightarrow> real \<Rightarrow> real \<Rightarrow> daisy_state \<Rightarrow> py_error + daisy_state" where
  "motion_outside Rt Ra dt r st =
     (case st of (x, y, vx, vy, speed) \<Rightarrow>
        bind_err (pydiv x r) (\<lambda>xn.
        bind_err (pydiv y r) (\<lambda>yn.
        bind_err (pydiv (Ra * Ra) r) (\<lambda>q1.
        bind_err (pydiv q1 r) (\<lambda>q2.
        bind_err (math_sqrt (1 - q2)) (\<lambda>bound.
          if (- xn * vx - yn * vy) > bound then Inr (straight_motion dt st)
          else if (- xn * vy + yn * vx) > 0 then curved_motion Rt dt vy (- vx) st
          else curved_motion Rt dt (- vy) vx st))))))"

definition daisy_step :: "real \<Rightarrow> real \<Rightarrow> real \<Rightarrow> real \<Rightarrow> real \<Rightarrow> real \<Rightarrow> daisy_state \<Rightarrow> py_error + daisy_state" where
  "daisy_step s0 start_acc R0 Rt Ra dt st =
     (case st of (x, y, vx, vy, speed) \<Rightarrow>
        (let speed' = ramp_speed s0 start_acc dt speed;
             r = sqrt (x * x + y * y)
         in if r < R0 then Inr (straight_motion dt (x, y, vx, vy, speed'))
            else motion_outside Rt Ra dt r (x, y, vx, vy, speed')))"

text \<open>
  \<^verbatim>\<open>for step in range(N)\<close>: the body, then \<^verbatim>\<open>x_coord[step] = x\<close>, \<^verbatim>\<open>y_coord[step] = y\<close>. The
  result is the list of stored positions, one per step.
\<close>

fun daisy_loop ::
    "nat \<Rightarrow> (daisy_state \<Rightarrow> py_error + daisy_state) \<Rightarrow> daisy_state \<Rightarrow> py_error + (real \<times> real) list" where
  "daisy_loop 0 step st = Inr []"
| "daisy_loop (Suc n) step st =
     bind_err (step st) (\<lambda>st'.
     bind_err (daisy_loop n step st') (\<lambda>rest.
       Inr ((fst st', fst (snd st')) # rest)))"

text \<open>
  \<^verbatim>\<open>N = int(T/dt)\<close>: the quotient of two numpy scalars is infinite or NaN for \<^verbatim>\<open>dt = 0\<close>, on
  which \<^verbatim>\<open>int\<close> raises OverflowError or ValueError; otherwise \<^verbatim>\<open>int\<close> truncates towards
  zero. \<^verbatim>\<open>np.empty(N)\<close> raises ValueError on a negative \<open>N\<close>.
\<close>

definition py_int :: "real \<Rightarrow> int" where
  "py_int q = (if 0 \<le> q then \<lfloor>q\<rfloor> else \<lceil>q\<rceil>)"

definition daisy_num_steps :: "real \<Rightarrow> real \<Rightarrow> py_error + nat" where
  "daisy_num_steps T dt =
     (if dt = 0 then (if T = 0 then Inl ValueError else Inl OverflowError)
      else if py_int (T / dt) < 0 then Inl ValueError
      else Inr (nat (py_int (T / dt))))"

text \<open>
  \<^verbatim>\<open>np.arange(0, T, dt)\<close> has \<open>ceil ((T - 0) / dt)\<close> elements (none if that is negative), the
  \<open>i\<close>-th being \<open>0 + i * dt\<close>.
\<close>

definition np_arange :: "real \<Rightarrow> real \<Rightarrow> real list" where
  "np_arange stop step = map (\<lambda>i. of_nat i * step) [0..<nat \<lceil>stop / step\<rceil>]"

text \<open>
  \<^verbatim>\<open>
  return pd.DataFrame({
      'time_offset': np.arange(0, T, dt),
      'x_coord': x_coord/3600, 'y_coord': y_coord/3600,
  })
  \<close>
  \<^verbatim>\<open>pd.DataFrame\<close> raises ValueError when the columns of the dictionary differ in length.
\<close>

definition data_frame :: "real list \<Rightarrow> (real \<times> real) list \<Rightarrow> py_error + sample list" where
  "data_frame ts xy =
     (if length ts = length xy
      then Inr (map (\<lambda>(t, x, y). (t, x / 3600, y / 3600)) (zip ts xy))
      else Inl ValueError)"

text \<open>
  \<^verbatim>\<open>Daisy._generate_scan\<close> (coordinates.py). The angles are converted to arcseconds; the
  tangent vector starts at \<open>(1, 0)\<close>, the position at \<open>(0, y_offset)\<close>, the speed at 0.
\<close>

definition Daisy_generate_scan :: "daisy_param \<Rightarrow> py_error + sample list" where
  "Daisy_generate_scan p =
     (let s0 = daisy_velocity p * 3600;
          start_acc = daisy_start_acc p * 3600;
          R0 = daisy_R0 p * 3600;
          Rt = daisy_Rt p * 3600;
          Ra = daisy_Ra p * 3600;
          T = daisy_T p;
          dt = daisy_sample_interval p;
          y_offset = daisy_y_offset p * 3600
      in bind_err (daisy_num_steps T dt) (\<lambda>N.
         bind_err (daisy_loop N (daisy_step s0 start_acc R0 Rt Ra dt) (0, y_offset, 1, 0, 0)) (\<lambda>xy.
           data_frame (np_arange T dt) xy)))"

text \<open>\<^verbatim>\<open>Daisy(**kwargs)\<close>: the cleaned parameters and the generated data.\<close>

definition Daisy_init :: "daisy_kwargs \<Rightarrow> py_error + daisy_param \<times> sample list" where
  "Daisy_init kwargs =
     bind_err (Daisy_clean_param kwargs) (\<lambda>p.
     bind_err (Daisy_generate_scan p) (\<lambda>data. Inr (p, data)))"

section \<open>SiderealClock: \<^verbatim>\<open>TelescopePattern._clean_param\<close> and \<^verbatim>\<open>TelescopePattern._get_lst\<close>\<close>

text \<open>
  The observation keywords. A start date and time is a value of an abstract type \<open>'d\<close>;
  its conversion to apparent sidereal time at the site (astropy) is a parameter of the
  model. Of the site only the latitude matters to the modelled code; without a
  \<^verbatim>\<open>location\<close> keyword it is that of \<^verbatim>\<open>FYST_LOC\<close>, latitude \<^verbatim>\<open>-22d59m08.30s\<close>.
\<close>

record 'd tp_kwargs =
  tkw_ra :: "real option"
  tkw_dec :: "real option"
  tkw_lat :: "real option"
  tkw_start_hrang :: "real option"
  tkw_start_datetime :: "'d option"
  tkw_start_lst :: "real option"
  tkw_start_el :: "real option"
  tkw_moving_up :: "bool option"

record 'd tp_param =
  tp_ra :: "real option"
  tp_dec :: "real option"
  tp_lat :: real
  tp_start_hrang :: "real option"
  tp_start_datetime :: "'d option"
  tp_start_lst :: "real option"
  tp_start_el :: "real option"
  tp_moving_up :: "bool option"

definition FYST_lat :: real where
  "FYST_lat = - (22 + 59 / 60 + (83 / 10) / 3600)"

text \<open>
  \<^verbatim>\<open>
  def _clean_param(self, **kwargs):
      ...
      location = kwargs.get('location', FYST_LOC)
      ...
      if 'start_hrang' in kwarg_keys:
          kwargs['start_hrang'] = u.Quantity(kwargs['start_hrang'], u.hourangle).value
      elif 'start_datetime' in kwarg_keys:
          kwargs['start_datetime'] = pd.Timestamp(kwargs['start_datetime']).to_pydatetime()
      elif 'start_lst' in kwarg_keys:
          kwargs['start_lst'] = u.Quantity(kwargs['start_lst'], u.hourangle).value
      elif 'start_el' in kwarg_keys:
          kwargs['start_el'] = u.Quantity(kwargs['start_el'], u.deg).value
          kwargs['moving_up'] = kwargs.get('moving_up', True)
      return kwargs
  \<close>
  The chain converts the unit of the first basis it finds and raises nothing; every key
  stays in the dictionary. Only its last branch touches \<^verbatim>\<open>moving_up\<close>.
\<close>

definition TelescopePattern_clean_param :: "'d tp_kwargs \<Rightarrow> 'd tp_param" where
  "TelescopePattern_clean_param kwargs =
     \<lparr>tp_ra = tkw_ra kwargs, tp_dec = tkw_dec kwargs,
      tp_lat = get_default (tkw_lat kwargs) FYST_lat,
      tp_start_hrang = tkw_start_hrang kwargs,
      tp_start_datetime = tkw_start_datetime kwargs,
      tp_start_lst = tkw_start_lst kwargs,
      tp_start_el = tkw_start_el kwargs,
      tp_moving_up =
        (if present (tkw_start_hrang kwargs) then tkw_moving_up kwargs
         else if present (tkw_start_datetime kwargs) then tkw_moving_up kwargs
         else if present (tkw_start_lst kwargs) then tkw_moving_up kwargs
         else if present (tkw_start_el kwargs) then Some (get_default (tkw_moving_up kwargs) True)
         else tkw_moving_up kwargs)\<rparr>"

text \<open>
  \<^verbatim>\<open>self.ra\<close> and \<^verbatim>\<open>self.dec\<close> go through \<^verbatim>\<open>__getattr__\<close>, which raises AttributeError for a
  key that is in neither the parameters nor the data.
\<close>

definition getattr :: "'a option \<Rightarrow> py_error + 'a" where
  "getattr v = (case v of None \<Rightarrow> Inl AttributeError | Some x \<Rightarrow> Inr x)"

definition radians :: "real \<Rightarrow> real" where
  "radians d = d * pi / 180"

definition degrees :: "real \<Rightarrow> real" where
  "degrees r = r * 180 / pi"

text \<open>\<^verbatim>\<open>math.acos\<close> raises ValueError outside \<open>[-1, 1]\<close>.\<close>

definition math_acos :: "real \<Rightarrow> py_error + real" where
  "math_acos c = (if c < - 1 \<or> 1 < c then Inl ValueError else Inr (arccos c))"

text \<open>
  The local function of \<^verbatim>\<open>_get_lst\<close>:
  \<^verbatim>\<open>
  def altitude(dec, lat, ha):
      sin_alt = sin(dec)*sin(lat) + cos(dec)*cos(lat)*cos(ha)
      return math.asin(sin_alt)
  \<close>
\<close>

definition altitude :: "real \<Rightarrow> real \<Rightarrow> real \<Rightarrow> real" where
  "altitude dec_rad lat_rad ha = arcsin (sin dec_rad * sin lat_rad + cos dec_rad * cos lat_rad * cos ha)"

text \<open>
  The branch of \<^verbatim>\<open>_get_lst\<close> for a starting elevation: the hour angle of the start, in
  radians.
  \<^verbatim>\<open>
  alt_rad = self.start_el.to(u.rad).value
  dec_rad = (self.dec + extra_dec_offset).to(u.rad).value
  lat_rad = self.location.lat.rad
  try:
      start_hrang_rad = math.acos((sin(alt_rad) - sin(dec_rad)*sin(lat_rad)) / (cos(dec_rad)*cos(lat_rad)))
  except ValueError as e:
      raise ValueError('Altitude is not possible at provided ra, dec, and latitude.') from e
  ...
  start_hrang_rad1 = (start_hrang_rad*u.rad + 1*u.deg).to(u.rad).value
  ha1_delta = altitude(dec_rad, lat_rad, start_hrang_rad1) - altitude(dec_rad, lat_rad, start_hrang_rad)
  ha1_up = True if ha1_delta > 0 else False
  start_hrang_rad2 = (-start_hrang_rad*u.rad + 1*u.deg).to(u.rad).value
  ha2_delta = altitude(dec_rad, lat_rad, start_hrang_rad2) - altitude(dec_rad, lat_rad, -start_hrang_rad)
  ha2_up = True if ha2_delta > 0 else False
  assert(ha1_up != ha2_up)
  if (self.moving_up and ha2_up) or (not self.moving_up and ha1_up):
      start_hrang_rad = -start_hrang_rad
  \<close>
\<close>

definition start_el_hrang :: "real \<Rightarrow> real \<Rightarrow> real \<Rightarrow> bool option \<Rightarrow> py_error + real" where
  "start_el_hrang alt_rad dec_rad lat_rad moving_up =
     bind_err (pydiv (sin alt_rad - sin dec_rad * sin lat_rad) (cos dec_rad * cos lat_rad)) (\<lambda>c.
     bind_err (math_acos c) (\<lambda>start_hrang_rad.
       (let ha1_up = (altitude dec_rad lat_rad (start_hrang_rad + radians 1)
                        - altitude dec_rad lat_rad start_hrang_rad > 0);
            ha2_up = (altitude dec_rad lat_rad (- start_hrang_rad + radians 1)
                        - altitude dec_rad lat_rad (- start_hrang_rad) > 0)
        in if ha1_up = ha2_up then Inl AssertionError
           else bind_err (getattr moving_up) (\<lambda>mv_up.
                  if (mv_up \<and> ha2_up) \<or> (\<not> mv_up \<and> ha1_up) then Inr (- start_hrang_rad)
                  else Inr start_hrang_rad))))"

text \<open>
  \<^verbatim>\<open>_get_lst\<close>: the starting sidereal time in hour angle (one hour angle is 15 degrees,
  \<open>pi / 12\<close> radians). The bases are tried in the order \<^verbatim>\<open>start_datetime\<close>, \<^verbatim>\<open>start_hrang\<close>,
  \<^verbatim>\<open>start_lst\<close>, \<^verbatim>\<open>start_el\<close>; with none of them
  \<^verbatim>\<open>
  else:
      raise TypeError('start_datetime or start_hrang or start_lst or start_el is required')
  \<close>
  \<open>extra_ra_offset\<close> and \<open>extra_dec_offset\<close> are the first offsets of the sky pattern, or 0
  without one.
\<close>

definition start_lst_of ::
    "('d \<Rightarrow> real) \<Rightarrow> 'd tp_param \<Rightarrow> real \<Rightarrow> real \<Rightarrow> py_error + real" where
  "start_lst_of sidereal_time param extra_ra_offset extra_dec_offset =
     (case tp_start_datetime param of
        Some d \<Rightarrow> Inr (sidereal_time d)
      | None \<Rightarrow>
     (case tp_start_hrang param of
        Some h \<Rightarrow> bind_err (getattr (tp_ra param)) (\<lambda>r. Inr (h + (extra_ra_offset + r) / 15))
      | None \<Rightarrow>
     (case tp_start_lst param of
        Some l \<Rightarrow> Inr l
      | None \<Rightarrow>
     (case tp_start_el param of
        Some el \<Rightarrow>
          bind_err (getattr (tp_dec param)) (\<lambda>dc.
          bind_err (start_el_hrang (radians el) (radians (dc + extra_dec_offset))
                      (radians (tp_lat param)) (tp_moving_up param)) (\<lambda>ha.
          bind_err (getattr (tp_ra param)) (\<lambda>r.
            Inr ((ha + radians (extra_ra_offset + r)) * 12 / pi))))
      | None \<Rightarrow> Inl TypeError))))"

text \<open>
  \<^verbatim>\<open>
  SIDEREAL_TO_UT1 = 1.002737909350795
  return (self.time_offset.value/3600*SIDEREAL_TO_UT1*u.hourangle + start_lst).to(u.hourangle).value
  \<close>
\<close>

definition SIDEREAL_TO_UT1 :: real where
  "SIDEREAL_TO_UT1 = 1002737909350795 / 1000000000000000"

definition get_lst ::
    "('d \<Rightarrow> real) \<Rightarrow> 'd tp_param \<Rightarrow> real list \<Rightarrow> sample list option \<Rightarrow> py_error + real list" where
  "get_lst sidereal_time param ts sky_pattern =
     bind_err (case sky_pattern of
                 None \<Rightarrow> Inr (0, 0)
               | Some [] \<Rightarrow> Inl IndexError
               | Some ((t, x, y) # _) \<Rightarrow> Inr (x, y)) (\<lambda>(extra_ra_offset, extra_dec_offset).
     bind_err (start_lst_of sidereal_time param extra_ra_offset extra_dec_offset) (\<lambda>start_lst.
       Inr (map (\<lambda>t. t / 3600 * SIDEREAL_TO_UT1 + start_lst) ts)))"

text \<open>
  The part of \<^verbatim>\<open>TelescopePattern.__init__\<close> that ends with the \<^verbatim>\<open>lst\<close> column. The keywords
  are cleaned first. Then
  \<^verbatim>\<open>
  if not isinstance(data, SkyPattern):
      if isinstance(data, str):
          try:
              self.data = pd.read_csv(data, index_col=False, usecols=['time_offset', 'lst', 'az_coord', 'alt_coord'])
          except ValueError:
              self.data = pd.read_csv(data, index_col=False, usecols=['time_offset', 'az_coord', 'alt_coord'])
              self.data['lst'] = self._get_lst()
      else:
          try:
              self.data = pd.DataFrame(data, columns=['time_offset', 'lst', 'az_coord', 'alt_coord'])
          except ValueError:
              self.data = pd.DataFrame(data, columns=['time_offset', 'az_coord', 'alt_coord'])
              self.data['lst'] = self._get_lst()
      ...
  else:
      ...
      self.data['lst'] = self._get_lst(data)
  \<close>
  A table is a csv file, a two-dimensional array (or list of rows), or named columns (a
  dict or a DataFrame); it has a \<^verbatim>\<open>time_offset\<close> column and may have an \<^verbatim>\<open>lst\<close> column.
  \<^verbatim>\<open>pd.read_csv\<close> raises ValueError when a column of \<^verbatim>\<open>usecols\<close> is missing from the file, and
  \<^verbatim>\<open>pd.DataFrame\<close> raises ValueError when an array has three columns and four names are
  given: in both cases \<^verbatim>\<open>_get_lst\<close> derives the column. For named columns \<^verbatim>\<open>pd.DataFrame\<close>
  does not raise: it selects the columns by name and fills a missing \<^verbatim>\<open>lst\<close> with NaN, so
  \<^verbatim>\<open>_get_lst\<close> is not called. An entry of the resulting column is \<open>Some\<close> of its value, or
  \<open>None\<close> for NaN.
\<close>

datatype tp_table = CsvFile | Array | Columns

datatype tp_data =
    FromSkyPattern "sample list"
  | FromTable tp_table "real list" "real list option"

definition TelescopePattern_lst ::
    "('d \<Rightarrow> real) \<Rightarrow> 'd tp_kwargs \<Rightarrow> tp_data \<Rightarrow> py_error + real option list" where
  "TelescopePattern_lst sidereal_time kwargs data =
     (let param = TelescopePattern_clean_param kwargs
      in case data of
           FromSkyPattern rows \<Rightarrow>
             bind_err (get_lst sidereal_time param (map time_offset rows) (Some rows))
               (\<lambda>lst. Inr (map Some lst))
         | FromTable kind ts (Some lst) \<Rightarrow> Inr (map Some lst)
         | FromTable Columns ts None \<Rightarrow> Inr (map (\<lambda>t. None) ts)
         | FromTable kind ts None \<Rightarrow>
             bind_err (get_lst sidereal_time param ts None) (\<lambda>lst. Inr (map Some lst)))"

section \<open>BoresightModuleTransform\<close>

text \<open>
  An az/alt series is a list of rows \<open>(az, alt)\<close> in degrees: the two columns that the
  callers take from one table. \<^verbatim>\<open>np.arctan2(y, x)\<close> is the angle of the point \<open>(x, y)\<close> in
  \<open>(-pi, pi]\<close>, and 0 at the origin.
\<close>

definition arctan2 :: "real \<Rightarrow> real \<Rightarrow> real" where
  "arctan2 y x =
     (if 0 < x then arctan (y / x)
      else if x < 0 then (if 0 \<le> y then arctan (y / x) + pi else arctan (y / x) - pi)
      else if 0 < y then pi / 2
      else if y < 0 then - pi / 2
      else 0)"

text \<open>
  The inverse transform, \<^verbatim>\<open>TelescopePattern._transform_to_boresight\<close>. Its equation:
  \<^verbatim>\<open>
  def func(alt_0, alt_1):
      return sin(alt_0)*cos(dist) + sin(dist)*cos(alt_0)*sin(theta + alt_0) - sin(alt_1)
  \<close>
\<close>

definition func :: "real \<Rightarrow> real \<Rightarrow> real \<Rightarrow> real \<Rightarrow> real" where
  "func dst theta alt_0 alt_1 =
     sin alt_0 * cos dst + sin dst * cos alt_0 * sin (theta + alt_0) - sin alt_1"

text \<open>
  The root finder is scipy's \<^verbatim>\<open>root_scalar(func, args=(a1), x0=guess, bracket=[-pi/2, pi/2],
  xtol=10**(-6))\<close>, a parameter of the model: given the function of \<open>alt_0\<close> and the guess
  it returns the root, or \<open>None\<close> where scipy raises ValueError.

  The loop:
  \<^verbatim>\<open>
  alt0 = np.empty(len(alt1))
  guess = alt1[0]
  for i, a1 in enumerate(alt1):
      try:
          a0 = root_scalar(func, args=(a1), x0=guess, bracket=[-pi/2, pi/2], xtol=10**(-6)).root
          guess = a0
      except ValueError:
          print(f'nan value at {i}')
          alt0 = math.nan

      alt0[i]= a0
  \<close>
  The handler rebinds the variable \<^verbatim>\<open>alt0\<close> to the float \<^verbatim>\<open>math.nan\<close>, so the variable holds
  either the array or that float; \<^verbatim>\<open>a0\<close> is unbound until the first solve succeeds. The
  statement after the handler reads \<^verbatim>\<open>a0\<close> (UnboundLocalError when unbound) and stores
  into \<^verbatim>\<open>alt0\<close> (TypeError when it is a float). The array of \<^verbatim>\<open>np.empty\<close> has arbitrary
  entries, each overwritten before it is read; the model starts it with zeros.
\<close>

datatype alt0_var = Arr "real list" | FloatNaN

type_synonym solver = "(real \<Rightarrow> real) \<Rightarrow> real \<Rightarrow> real option"

type_synonym solve_state = "alt0_var \<times> real \<times> real option"

definition solve_step ::
    "solver \<Rightarrow> real \<Rightarrow> real \<Rightarrow> solve_state \<Rightarrow> nat \<times> real \<Rightarrow> py_error + solve_state" where
  "solve_step root_scalar dst theta st ia1 =
     (case st of (alt0, guess, a0) \<Rightarrow>
      case ia1 of (i, a1) \<Rightarrow>
        (let (alt0', guess', a0') =
               (case root_scalar (\<lambda>alt_0. func dst theta alt_0 a1) guess of
                  Some x \<Rightarrow> (alt0, x, Some x)
                | None \<Rightarrow> (FloatNaN, guess, a0))
         in case a0' of
              None \<Rightarrow> Inl UnboundLocalError
            | Some v \<Rightarrow>
                (case alt0' of
                   FloatNaN \<Rightarrow> Inl TypeError
                 | Arr xs \<Rightarrow> Inr (Arr (xs[i := v]), guess', a0'))))"

fun solve_loop ::
    "solver \<Rightarrow> real \<Rightarrow> real \<Rightarrow> solve_state \<Rightarrow> (nat \<times> real) list \<Rightarrow> py_error + solve_state" where
  "solve_loop root_scalar dst theta st [] = Inr st"
| "solve_loop root_scalar dst theta st (ia1 # rest) =
     bind_err (solve_step root_scalar dst theta st ia1) (\<lambda>st'.
       solve_loop root_scalar dst theta st' rest)"

text \<open>
  \<^verbatim>\<open>
  cos_diff_az0 = (cos(dist) - np.sin(alt0)*np.sin(alt1))/(np.cos(alt0)*np.cos(alt1))
  cos_diff_az0[cos_diff_az0 > 1] = 1
  cos_diff_az0[cos_diff_az0 < -1] = -1
  diff_az0 = np.arccos(cos_diff_az0)
  mask = (theta > -alt0 + pi/2) & (theta < -alt0 + 3*pi/2)
  diff_az0[mask] = -diff_az0[mask]
  az0 = az1 - diff_az0
  return self._norm_angle(np.degrees(az0)), np.degrees(alt0)%360
  \<close>
\<close>

definition np_clip1 :: "real \<Rightarrow> real" where
  "np_clip1 c = (if c > 1 then 1 else if c < - 1 then - 1 else c)"

definition diff_az :: "real \<Rightarrow> real \<Rightarrow> real \<Rightarrow> real \<Rightarrow> py_error + real" where
  "diff_az dst theta a0 a1 =
     (if cos a0 * cos a1 = 0 then Inl NonFinite
      else
        (let diff_az0 = arccos (np_clip1 ((cos dst - sin a0 * sin a1) / (cos a0 * cos a1)))
         in Inr (if theta > - a0 + pi / 2 \<and> theta < - a0 + 3 * pi / 2 then - diff_az0
                 else diff_az0)))"

fun map_err :: "('a \<Rightarrow> py_error + 'b) \<Rightarrow> 'a list \<Rightarrow> py_error + 'b list" where
  "map_err f [] = Inr []"
| "map_err f (x # xs) = bind_err (f x) (\<lambda>y. bind_err (map_err f xs) (\<lambda>ys. Inr (y # ys)))"

definition transform_to_boresight ::
    "solver \<Rightarrow> (real \<times> real) list \<Rightarrow> real \<Rightarrow> real \<Rightarrow> py_error + real list \<times> real list" where
  "transform_to_boresight root_scalar rows dist_deg theta_deg =
     (let dst = radians dist_deg;
          theta = radians theta_deg;
          alt1 = map (\<lambda>r. radians (snd r)) rows;
          az1 = map (\<lambda>r. radians (fst r)) rows
      in case alt1 of
           [] \<Rightarrow> Inl IndexError
         | guess # _ \<Rightarrow>
             bind_err (solve_loop root_scalar dst theta
                         (Arr (replicate (length alt1) 0), guess, None)
                         (zip [0..<length alt1] alt1)) (\<lambda>st.
               case fst st of
                 FloatNaN \<Rightarrow> Inl NonFinite
               | Arr alt0 \<Rightarrow>
                   bind_err (map_err (\<lambda>(a0, a1). diff_az dst theta a0 a1) (zip alt0 alt1))
                     (\<lambda>diff_az0.
                   bind_err (norm_angle (map degrees (map (\<lambda>(a, d). a - d) (zip az1 diff_az0))))
                     (\<lambda>az0.
                      Inr (az0, map (\<lambda>a. pymod (degrees a) 360) alt0)))))"

text \<open>
  The forward transform, \<^verbatim>\<open>TelescopePattern._transform_from_boresight\<close>:
  \<^verbatim>\<open>
  alt1 = np.arcsin(np.sin(alt0)*cos(dist) + sin(dist)*np.cos(alt0)*np.sin(theta + alt0))
  sin_az1 = 1/np.cos(alt1) * ( np.cos(alt0)*np.sin(az0)*cos(dist) + np.cos(az0)*np.cos(theta + alt0)*sin(dist) - np.sin(alt0)*np.sin(az0)*sin(dist)*np.sin(theta + alt0) )
  cos_az1 = 1/np.cos(alt1) * ( np.cos(alt0)*np.cos(az0)*cos(dist) - np.sin(az0)*np.cos(theta + alt0)*sin(dist) - np.sin(alt0)*np.cos(az0)*sin(dist)*np.sin(theta + alt0) )
  az1 = np.arctan2(sin_az1, cos_az1)
  return self._norm_angle(np.degrees(az1)), np.degrees(alt1)%360
  \<close>
  One sample, in radians. Outside \<open>[-1, 1]\<close> \<^verbatim>\<open>np.arcsin\<close> is NaN, and numpy's division by
  zero is inf or NaN: both are \<open>NonFinite\<close> here. In exact arithmetic the cosine is zero
  at an altitude of exactly 90 or -90 degrees; the floating-point \<^verbatim>\<open>np.radians(90)\<close> is not
  exactly \<open>pi / 2\<close> and its cosine is not zero.
\<close>

definition from_boresight_sample :: "real \<Rightarrow> real \<Rightarrow> real \<times> real \<Rightarrow> py_error + real \<times> real" where
  "from_boresight_sample dst theta r =
     (case r of (az0, alt0) \<Rightarrow>
        (let s = sin alt0 * cos dst + sin dst * cos alt0 * sin (theta + alt0)
         in if s < - 1 \<or> 1 < s then Inl NonFinite
            else
              (let alt1 = arcsin s
               in if cos alt1 = 0 then Inl NonFinite
                  else
                    (let sin_az1 = 1 / cos alt1 *
                           (cos alt0 * sin az0 * cos dst + cos az0 * cos (theta + alt0) * sin dst
                              - sin alt0 * sin az0 * sin dst * sin (theta + alt0));
                         cos_az1 = 1 / cos alt1 *
                           (cos alt0 * cos az0 * cos dst - sin az0 * cos (theta + alt0) * sin dst
                              - sin alt0 * cos az0 * sin dst * sin (theta + alt0))
                     in Inr (arctan2 sin_az1 cos_az1, alt1)))))"

definition transform_from_boresight ::
    "(real \<times> real) list \<Rightarrow> real \<Rightarrow> real \<Rightarrow> py_error + real list \<times> real list" where
  "transform_from_boresight rows dist_deg theta_deg =
     bind_err (map_err (from_boresight_sample (radians dist_deg) (radians theta_deg))
                 (map (\<lambda>r. (radians (fst r), radians (snd r))) rows)) (\<lambda>out.
     bind_err (norm_angle (map (\<lambda>r. degrees (fst r)) out)) (\<lambda>az1.
       Inr (az1, map (\<lambda>r. pymod (degrees (snd r)) 360) out)))"

section \<open>Facts about the modulus\<close>

lemma pymod_360_bounds: "0 \<le> pymod x 360 \<and> pymod x 360 < 360"
proof -
  have "of_int \<lfloor>x / 360\<rfloor> \<le> x / 360" and "x / 360 < of_int \<lfloor>x / 360\<rfloor> + 1"
    by linarith+
  then show ?thesis
    unfolding pymod_def by (simp add: field_simps)
qed

lemma pymod_360_congruent: "\<exists>k::int. pymod x 360 = x + 360 * of_int k"
proof
  show "pymod x 360 = x + 360 * of_int (- \<lfloor>x / 360\<rfloor>)"
    unfolding pymod_def by simp
qed

lemma pymod_360_shift: "pymod (x + 360 * of_int k) 360 = pymod x 360"
proof -
  have "(x + 360 * of_int k) / 360 = x / 360 + of_int k"
    by (simp add: field_simps)
  then have "\<lfloor>(x + 360 * of_int k) / 360\<rfloor> = \<lfloor>x / 360\<rfloor> + k"
    by (simp only: floor_add_int)
  then show ?thesis
    unfolding pymod_def by (simp add: algebra_simps)
qed

lemma pymod_360_id: "0 \<le> x \<Longrightarrow> x < 360 \<Longrightarrow> pymod x 360 = x"
proof -
  assume "0 \<le> x" "x < 360"
  then have "\<lfloor>x / 360\<rfloor> = 0"
    by (simp add: floor_eq_iff)
  then show ?thesis
    unfolding pymod_def by simp
qed

section \<open>Claims about the angle normalizer\<close>

text \<open>
  C6, as stated, fails: the window is anchored at the first sample reduced modulo 360,
  not at the first sample itself. The one-sample series \<open>[400]\<close> is normalized to
  \<open>[40]\<close>, which lies below \<open>400 - 180\<close>.
\<close>

theorem norm_angle_window_counterexample:
  "norm_angle [400] = Inr [40] \<and> \<not> (400 - 180 \<le> (40::real))"
proof -
  have "pymod 400 360 = 40"
    unfolding pymod_def by (simp add: floor_eq_iff)
  moreover have "pymod (400 - (40 - 180)) 360 = 180"
    unfolding pymod_def by (simp add: floor_eq_iff)
  ultimately show ?thesis
    by (simp add: norm_angle_def)
qed

text \<open>
  C6, amended: for every non-empty azimuth series the normalizer returns a series of the
  same length; every output sample is congruent to the corresponding input sample
  modulo 360 and lies in the half-open window
  \<open>[first mod 360 - 180, first mod 360 + 180)\<close>, where \<open>first\<close> is the first input sample
  and \<open>first mod 360\<close> lies in \<open>[0, 360)\<close>. The window is the same for every sample.
\<close>

theorem norm_angle_window:
  assumes "az \<noteq> []"
  shows "\<exists>out. norm_angle az = Inr out \<and> length out = length az \<and>
           0 \<le> pymod (hd az) 360 \<and> pymod (hd az) 360 < 360 \<and>
           (\<forall>i<length az.
              (\<exists>k::int. out ! i = az ! i + 360 * of_int k) \<and>
              pymod (hd az) 360 - 180 \<le> out ! i \<and>
              out ! i < pymod (hd az) 360 + 180)"
proof -
  from assms obtain a0 rest where az: "az = a0 # rest"
    by (cases az) auto
  define lowest_az where "lowest_az = pymod a0 360 - 180"
  define out where "out = map (\<lambda>a. pymod (a - lowest_az) 360 + lowest_az) az"
  have res: "norm_angle az = Inr out"
    by (simp add: norm_angle_def az out_def lowest_az_def Let_def)
  have len: "length out = length az"
    by (simp add: out_def)
  have each: "(\<exists>k::int. out ! i = az ! i + 360 * of_int k) \<and>
              pymod (hd az) 360 - 180 \<le> out ! i \<and> out ! i < pymod (hd az) 360 + 180"
    if "i < length az" for i
  proof -
    have oi: "out ! i = pymod (az ! i - lowest_az) 360 + lowest_az"
      using that by (simp add: out_def)
    obtain k :: int where k: "pymod (az ! i - lowest_az) 360 = az ! i - lowest_az + 360 * of_int k"
      using pymod_360_congruent by blast
    have "out ! i = az ! i + 360 * of_int k"
      using oi k by simp
    moreover have "pymod (hd az) 360 - 180 \<le> out ! i" "out ! i < pymod (hd az) 360 + 180"
      using pymod_360_bounds [of "az ! i - lowest_az"] oi
      by (simp_all add: az lowest_az_def)
    ultimately show ?thesis by blast
  qed
  show ?thesis
    using res len each pymod_360_bounds [of "hd az"] by blast
qed

theorem norm_angle_window_witness:
  "[400, 30] \<noteq> ([] :: real list) \<and>
   (\<exists>out. norm_angle [400, 30] = Inr out \<and> length out = length [400, 30 :: real] \<and>
           0 \<le> pymod (hd [400, 30]) 360 \<and> pymod (hd [400, 30]) 360 < 360 \<and>
           (\<forall>i<length [400, 30 :: real].
              (\<exists>k::int. out ! i = [400, 30] ! i + 360 * of_int k) \<and>
              pymod (hd [400, 30]) 360 - 180 \<le> out ! i \<and>
              out ! i < pymod (hd [400, 30]) 360 + 180))"
proof -
  have h: "[400, 30] \<noteq> ([] :: real list)" by simp
  show ?thesis
    using h norm_angle_window [OF h] by blast
qed

section \<open>Pong vertex counts: the loop ends, coprime and of opposite parity\<close>


lemma gcd_loop_0_1:
  "gcd (m + 2 * int k) l = 1 \<Longrightarrow>
   \<exists>j. gcd_loop [m, l] 0 1 = Some [m + 2 * int j, l] \<and> gcd (m + 2 * int j) l = 1"
proof (induction k arbitrary: m)
  case 0
  then show ?case
    by (intro exI [of _ 0]) (simp add: gcd_loop.simps)
next
  case (Suc k)
  show ?case
  proof (cases "gcd m l = 1")
    case True
    then show ?thesis
      by (intro exI [of _ 0]) (simp add: gcd_loop.simps)
  next
    case False
    from Suc.prems have "gcd ((m + 2) + 2 * int k) l = 1"
      by (simp add: algebra_simps)
    from Suc.IH [OF this] obtain j where
      j: "gcd_loop [m + 2, l] 0 1 = Some [m + 2 + 2 * int j, l]" "gcd (m + 2 + 2 * int j) l = 1"
      by auto
    have "gcd_loop [m, l] 0 1 = gcd_loop [m + 2, l] 0 1"
      using False by (subst gcd_loop.simps) simp
    then show ?thesis
      using j by (intro exI [of _ "Suc j"]) (simp add: algebra_simps)
  qed
qed

lemma gcd_loop_1_0:
  "gcd (m + 2 * int k) l = 1 \<Longrightarrow>
   \<exists>j. gcd_loop [l, m] 1 0 = Some [l, m + 2 * int j] \<and> gcd (m + 2 * int j) l = 1"
proof (induction k arbitrary: m)
  case 0
  then show ?case
    by (intro exI [of _ 0]) (simp add: gcd_loop.simps)
next
  case (Suc k)
  show ?case
  proof (cases "gcd m l = 1")
    case True
    then show ?thesis
      by (intro exI [of _ 0]) (simp add: gcd_loop.simps)
  next
    case False
    from Suc.prems have "gcd ((m + 2) + 2 * int k) l = 1"
      by (simp add: algebra_simps)
    from Suc.IH [OF this] obtain j where
      j: "gcd_loop [l, m + 2] 1 0 = Some [l, m + 2 + 2 * int j]" "gcd (m + 2 + 2 * int j) l = 1"
      by auto
    have "gcd_loop [l, m] 1 0 = gcd_loop [l, m + 2] 1 0"
      using False by (subst gcd_loop.simps) simp
    then show ?thesis
      using j by (intro exI [of _ "Suc j"]) (simp add: algebra_simps)
  qed
qed

lemma coprime_shift_exists:
  fixes m l :: int
  assumes "1 \<le> l" "0 \<le> m" "odd (m + l)"
  shows "\<exists>k::nat. gcd (m + 2 * int k) l = 1"
proof -
  define d where "d = 1 + l * (2 * m + 1) - m"
  have "even d"
    using assms(3) unfolding d_def by simp
  moreover have "0 \<le> d"
  proof -
    have "m \<le> l * m" using assms(1,2) by (simp add: mult_le_cancel_right1)
    then show ?thesis unfolding d_def by (simp add: algebra_simps) (use assms in linarith)
  qed
  ultimately obtain k :: nat where k: "d = 2 * int k"
    by (metis evenE nonneg_int_cases zero_le_mult_iff zero_le_numeral not_numeral_le_zero)
  have "m + 2 * int k = 1 + l * (2 * m + 1)"
    using k unfolding d_def by simp
  then have "gcd (m + 2 * int k) l = gcd (1 + l * (2 * m + 1)) l"
    by simp
  also have "\<dots> = 1"
    by (metis add.commute gcd.commute gcd_add_mult coprime_1_left coprime_iff_gcd_eq_1 mult.commute)
  finally show ?thesis by (rule exI)
qed


lemma parity_adjust_props:
  assumes "1 \<le> x0" "1 \<le> y0" "parity_adjust x0 y0 = (x1, y1)"
  shows "1 \<le> x1 \<and> 1 \<le> y1 \<and> odd (x1 + y1)"
proof (cases "x0 mod 2 = y0 mod 2")
  case True
  then have "even (x0 + y0)"
    by presburger
  then show ?thesis
    using assms True by (auto simp: parity_adjust_def split: if_splits)
next
  case False
  then have "odd (x0 + y0)"
    by presburger
  then show ?thesis
    using assms False by (auto simp: parity_adjust_def)
qed

lemma check_numvert_ok:
  assumes "gcd x y = 1" "odd (x + y)"
  shows "check_numvert x y = Inr (x, y)"
proof -
  have "(x mod 2 = 0 \<and> y mod 2 = 1) \<or> (x mod 2 = 1 \<and> y mod 2 = 0)"
    using assms(2) by presburger
  then show ?thesis
    using assms(1) by (simp add: check_numvert_def)
qed

lemma numvert_loop_result:
  fixes x1 y1 :: int
  assumes "1 \<le> x1" "1 \<le> y1" "odd (x1 + y1)"
  shows "\<exists>x y. (case gcd_loop [x1, y1] (index2 x1 y1 (max x1 y1)) (index2 x1 y1 (min x1 y1)) of
                  None \<Rightarrow> None
                | Some num_vert \<Rightarrow> Some (check_numvert (num_vert ! 0) (num_vert ! 1)))
               = Some (Inr (x, y)) \<and> gcd x y = 1 \<and> odd (x + y) \<and> 1 \<le> x \<and> 1 \<le> y"
proof -
  have ne: "x1 \<noteq> y1"
    using assms(3) by auto
  show ?thesis
  proof (cases "y1 < x1")
    case True
    then have idx: "index2 x1 y1 (max x1 y1) = 0" "index2 x1 y1 (min x1 y1) = 1"
      by (simp_all add: index2_def)
    have "\<exists>k::nat. gcd (x1 + 2 * int k) y1 = 1"
      by (intro coprime_shift_exists) (use assms in simp_all)
    then obtain k :: nat where "gcd (x1 + 2 * int k) y1 = 1" ..
    then have "\<exists>j. gcd_loop [x1, y1] 0 1 = Some [x1 + 2 * int j, y1] \<and>
        gcd (x1 + 2 * int j) y1 = 1"
      by (rule gcd_loop_0_1)
    then obtain j where j: "gcd_loop [x1, y1] 0 1 = Some [x1 + 2 * int j, y1]"
        "gcd (x1 + 2 * int j) y1 = 1"
      by (elim exE conjE) (rule that)
    have "odd (x1 + 2 * int j + y1)"
      using assms(3) by simp
    then have "check_numvert (x1 + 2 * int j) y1 = Inr (x1 + 2 * int j, y1)"
      using j(2) by (rule check_numvert_ok [rotated])
    then show ?thesis
      using j assms \<open>odd (x1 + 2 * int j + y1)\<close> by (simp add: idx)
  next
    case False
    with ne have lt: "x1 < y1" by simp
    then have idx: "index2 x1 y1 (max x1 y1) = 1" "index2 x1 y1 (min x1 y1) = 0"
      by (simp_all add: index2_def)
    have "odd (y1 + x1)"
      using assms(3) by (simp add: add.commute)
    then have "\<exists>k::nat. gcd (y1 + 2 * int k) x1 = 1"
      using assms by (intro coprime_shift_exists) simp_all
    then obtain k :: nat where "gcd (y1 + 2 * int k) x1 = 1" ..
    then have "\<exists>j. gcd_loop [x1, y1] 1 0 = Some [x1, y1 + 2 * int j] \<and>
        gcd (y1 + 2 * int j) x1 = 1"
      by (rule gcd_loop_1_0)
    then obtain j where j: "gcd_loop [x1, y1] 1 0 = Some [x1, y1 + 2 * int j]"
        "gcd (y1 + 2 * int j) x1 = 1"
      by (elim exE conjE) (rule that)
    have odd: "odd (x1 + (y1 + 2 * int j))"
      using assms(3) by simp
    have "gcd x1 (y1 + 2 * int j) = 1"
      using j(2) by (simp add: gcd.commute)
    then have "check_numvert x1 (y1 + 2 * int j) = Inr (x1, y1 + 2 * int j)"
      using odd by (rule check_numvert_ok)
    then show ?thesis
      using j assms odd \<open>gcd x1 (y1 + 2 * int j) = 1\<close> by (simp add: idx)
  qed
qed

lemma ceiling_pos_quotient:
  fixes a b :: real
  assumes "0 < a" "0 < b"
  shows "1 \<le> \<lceil>a / b\<rceil>"
proof -
  have "0 < a / b" using assms by simp
  then have "0 < \<lceil>a / b\<rceil>" by (simp add: ceiling_less_iff)
  then show ?thesis by simp
qed

lemma pong_numvert_valid:
  assumes "0 < w" "0 < h" "0 < s"
  shows "\<exists>x y. pong_numvert w h s = Some (Inr (x, y)) \<and>
           gcd x y = 1 \<and> odd (x + y) \<and> 1 \<le> x \<and> 1 \<le> y"
proof -
  define vs where "vs = vert_spacing_of s"
  have vs: "0 < vs"
    using assms(3) by (simp add: vs_def vert_spacing_of_def)
  obtain x1 y1 where adj: "parity_adjust \<lceil>w / vs\<rceil> \<lceil>h / vs\<rceil> = (x1, y1)"
    by (cases "parity_adjust \<lceil>w / vs\<rceil> \<lceil>h / vs\<rceil>")
  have "1 \<le> \<lceil>w / vs\<rceil>" "1 \<le> \<lceil>h / vs\<rceil>"
    using assms vs by (simp_all add: ceiling_pos_quotient)
  then have props: "1 \<le> x1 \<and> 1 \<le> y1 \<and> odd (x1 + y1)"
    using adj by (rule parity_adjust_props)
  then have "\<exists>x y. (case gcd_loop [x1, y1] (index2 x1 y1 (max x1 y1)) (index2 x1 y1 (min x1 y1)) of
                  None \<Rightarrow> None
                | Some num_vert \<Rightarrow> Some (check_numvert (num_vert ! 0) (num_vert ! 1)))
               = Some (Inr (x, y)) \<and> gcd x y = 1 \<and> odd (x + y) \<and> 1 \<le> x \<and> 1 \<le> y"
    by (intro numvert_loop_result) simp_all
  moreover have "pong_numvert w h s =
      (case gcd_loop [x1, y1] (index2 x1 y1 (max x1 y1)) (index2 x1 y1 (min x1 y1)) of
                  None \<Rightarrow> None
                | Some num_vert \<Rightarrow> Some (check_numvert (num_vert ! 0) (num_vert ! 1)))"
    using vs adj by (simp add: pong_numvert_def vs_def [symmetric] Let_def)
  ultimately show ?thesis
    by simp
qed

text \<open>
  C4: for every Pong input with positive width \<open>w\<close>, height \<open>h\<close> and spacing \<open>s\<close> the vertex-count
  computation returns (the \<^verbatim>\<open>while\<close> loop ends and neither assertion fails), and the
  counts \<open>x_numvert\<close>, \<open>y_numvert\<close> it returns are coprime and of opposite parity: exactly
  one of them is even.
\<close>

theorem pong_numvert_coprime_opposite_parity:
  assumes "0 < w" "0 < h" "0 < s"
  shows "\<exists>x_numvert y_numvert.
           pong_numvert w h s = Some (Inr (x_numvert, y_numvert)) \<and>
           gcd x_numvert y_numvert = 1 \<and>
           ((even x_numvert \<and> odd y_numvert) \<or> (odd x_numvert \<and> even y_numvert))"
proof -
  from pong_numvert_valid [OF assms] obtain x y where
    xy: "pong_numvert w h s = Some (Inr (x, y))" "gcd x y = 1" "odd (x + y)"
    by (elim exE conjE) (rule that)
  have "(even x \<and> odd y) \<or> (odd x \<and> even y)"
    using xy(3) by auto
  with xy(1,2) show ?thesis
    by (intro exI [of _ x] exI [of _ y] conjI)
qed

theorem pong_numvert_coprime_opposite_parity_witness:
  "(0::real) < 2 \<and> (0::real) < 3 / 2 \<and> (0::real) < 1 / 10 \<and>
   (\<exists>x_numvert y_numvert.
      pong_numvert 2 (3 / 2) (1 / 10) = Some (Inr (x_numvert, y_numvert)) \<and>
      gcd x_numvert y_numvert = 1 \<and>
      ((even x_numvert \<and> odd y_numvert) \<or> (odd x_numvert \<and> even y_numvert)))"
proof -
  have pos: "(0::real) < 2" "(0::real) < 3 / 2" "(0::real) < 1 / 10"
    by simp_all
  from pong_numvert_coprime_opposite_parity [OF pos] pos show ?thesis
    by (intro conjI)
qed



section \<open>Pong periods and sample count\<close>


lemma pong_loop_rows:
  fixes row :: "real \<Rightarrow> py_error + 'r" and tm :: "'r \<Rightarrow> real"
  assumes "\<And>t. \<exists>r. row t = Inr r \<and> tm r = t"
  shows "\<exists>rs. pong_loop n t0 dt row = Inr rs \<and> length rs = n \<and>
           (\<forall>i<n. tm (rs ! i) = t0 + of_nat i * dt)"
proof (induction n arbitrary: t0)
  case 0
  show ?case by simp
next
  case (Suc n)
  obtain r where r: "row t0 = Inr r" "tm r = t0"
    using assms by blast
  obtain rs where rs: "pong_loop n (t0 + dt) dt row = Inr rs" "length rs = n"
      "\<forall>i<n. tm (rs ! i) = (t0 + dt) + of_nat i * dt"
    using Suc.IH [of "t0 + dt"] by blast
  have "pong_loop (Suc n) t0 dt row = Inr (r # rs)"
    using r rs by (simp add: bind_err_def)
  moreover have "\<forall>i<Suc n. tm ((r # rs) ! i) = t0 + of_nat i * dt"
  proof (intro allI impI)
    fix i assume "i < Suc n"
    show "tm ((r # rs) ! i) = t0 + of_nat i * dt"
    proof (cases i)
      case 0
      then show ?thesis using r by simp
    next
      case (Suc j)
      then have "j < n" using \<open>i < Suc n\<close> by simp
      then show ?thesis using rs(3) Suc by (simp add: algebra_simps)
    qed
  qed
  ultimately show ?case
    using rs(2) by simp
qed

lemma fourier_expansion_ok:
  "peri \<noteq> 0 \<Longrightarrow> \<exists>v. fourier_expansion nterm amp t peri = Inr v"
  by (simp add: fourier_expansion_def pydiv_def bind_err_def Let_def)

lemma Pong_row_ok:
  assumes "peri_x t \<noteq> 0" "peri_y t \<noteq> 0"
  shows "\<exists>r. Pong_row nterm t a tc = Inr r \<and> time_offset r = tc"
proof -
  obtain vx where vx: "fourier_expansion nterm (amp_x t) tc (peri_x t) = Inr vx"
    using fourier_expansion_ok [OF assms(1)] by blast
  obtain vy where vy: "fourier_expansion nterm (amp_y t) tc (peri_y t) = Inr vy"
    using fourier_expansion_ok [OF assms(2)] by blast
  show ?thesis
    by (simp add: Pong_row_def vx vy bind_err_def time_offset_def)
qed

lemma CurvyPong_fourier_expansion_ok:
  "peri \<noteq> 0 \<Longrightarrow> \<exists>v. CurvyPong_fourier_expansion nterm amp t peri = Inr v"
  by (simp add: CurvyPong_fourier_expansion_def pydiv_def bind_err_def Let_def split: prod.splits)

lemma CurvyPong_row_ok:
  assumes "peri_x t \<noteq> 0" "peri_y t \<noteq> 0"
  shows "\<exists>r. CurvyPong_row nterm t a tc = Inr r \<and> row_time_offset r = tc"
proof -
  obtain vx where vx: "CurvyPong_fourier_expansion nterm (amp_x t) tc (peri_x t) = Inr vx"
    using CurvyPong_fourier_expansion_ok [OF assms(1)] by blast
  obtain vy where vy: "CurvyPong_fourier_expansion nterm (amp_y t) tc (peri_y t) = Inr vy"
    using CurvyPong_fourier_expansion_ok [OF assms(2)] by blast
  show ?thesis
    by (cases vx, cases vy) (simp add: CurvyPong_row_def vx vy bind_err_def)
qed

lemma pong_periods_ok:
  assumes "va \<noteq> 0" "dt \<noteq> 0"
  shows "pong_periods va dt vs x y =
           Inr \<lparr>vavg = va,
                peri_x = of_int x * vs * 2 / va,
                peri_y = of_int y * vs * 2 / va,
                period = of_int (x * y) * vs * 2 / va,
                pongcount = \<lceil>of_int (x * y) * vs * 2 / va / dt\<rceil>,
                amp_x = of_int x * vs / 2,
                amp_y = of_int y * vs / 2\<rparr>"
  using assms by (simp add: pong_periods_def pydiv_def bind_err_def)


lemma Pong_one_period_valid:
  fixes p :: "'a scan_param_scheme"
  assumes "0 < width p" "0 < height p" "0 < spacing p" "0 < velocity p" "0 < sample_interval p"
  shows "\<exists>x y t data.
           pong_numvert (width p) (height p) (spacing p) = Some (Inr (x, y)) \<and>
           Pong_one_period p = Some (Inr (t, data)) \<and>
           t = \<lparr>vavg = velocity p / sqrt 2,
                peri_x = of_int x * vert_spacing_of (spacing p) * 2 / (velocity p / sqrt 2),
                peri_y = of_int y * vert_spacing_of (spacing p) * 2 / (velocity p / sqrt 2),
                period = of_int (x * y) * vert_spacing_of (spacing p) * 2 / (velocity p / sqrt 2),
                pongcount = \<lceil>of_int (x * y) * vert_spacing_of (spacing p) * 2
                               / (velocity p / sqrt 2) / sample_interval p\<rceil>,
                amp_x = of_int x * vert_spacing_of (spacing p) / 2,
                amp_y = of_int y * vert_spacing_of (spacing p) / 2\<rparr> \<and>
           0 < pongcount t \<and> int (length data) = pongcount t \<and>
           (\<forall>i<length data. time_offset (data ! i) = of_nat i * sample_interval p)"
proof -
  define vs where "vs = vert_spacing_of (spacing p)"
  define va where "va = velocity p / sqrt 2"
  have vs: "0 < vs" using assms(3) by (simp add: vs_def vert_spacing_of_def)
  have va: "0 < va" using assms(4) by (simp add: va_def)
  obtain x y where xy: "pong_numvert (width p) (height p) (spacing p) = Some (Inr (x, y))"
      "1 \<le> x" "1 \<le> y"
    using pong_numvert_valid [OF assms(1,2,3)] by (elim exE conjE) (rule that)
  define t where "t = \<lparr>vavg = va,
                peri_x = of_int x * vs * 2 / va,
                peri_y = of_int y * vs * 2 / va,
                period = of_int (x * y) * vs * 2 / va,
                pongcount = \<lceil>of_int (x * y) * vs * 2 / va / sample_interval p\<rceil>,
                amp_x = of_int x * vs / 2,
                amp_y = of_int y * vs / 2\<rparr>"
  have per: "pong_periods va (sample_interval p) vs x y = Inr t"
    unfolding t_def using va assms(5) by (intro pong_periods_ok) simp_all
  have px: "peri_x t \<noteq> 0" and py: "peri_y t \<noteq> 0"
    using xy(2,3) vs va by (simp_all add: t_def)
  have "0 < x * y" using xy(2,3) by (simp add: zero_less_mult_iff)
  then have "0 < real_of_int (x * y)" by (simp only: of_int_0_less_iff)
  then have "0 < of_int (x * y) * vs * 2 / va / sample_interval p"
    using vs va assms(5) by simp
  then have cnt: "0 < pongcount t"
    by (simp add: t_def ceiling_less_iff)
  have "\<exists>rs. pong_loop (nat (pongcount t)) 0 (sample_interval p)
               (Pong_row (num_term p) t (angle p * pi / 180)) = Inr rs \<and>
             length rs = nat (pongcount t) \<and>
             (\<forall>i<nat (pongcount t). time_offset (rs ! i) = 0 + of_nat i * sample_interval p)"
    by (rule pong_loop_rows) (rule Pong_row_ok [OF px py])
  then obtain data where data:
      "pong_loop (nat (pongcount t)) 0 (sample_interval p)
               (Pong_row (num_term p) t (angle p * pi / 180)) = Inr data"
      "length data = nat (pongcount t)"
      "\<forall>i<nat (pongcount t). time_offset (data ! i) = 0 + of_nat i * sample_interval p"
    by (elim exE conjE) (rule that)
  have one: "Pong_one_period p = Some (Inr (t, data))"
    using xy(1) per data(1)
    by (simp add: Pong_one_period_def bind_err_def Pong_vavg_def vs_def va_def)
  have len: "int (length data) = pongcount t"
    using data(2) cnt by simp
  have times: "\<forall>i<length data. time_offset (data ! i) = of_nat i * sample_interval p"
    using data(2,3) by simp
  show ?thesis
    using xy(1) one cnt len times
    by (intro exI [of _ x] exI [of _ y] exI [of _ t] exI [of _ data] conjI)
       (simp_all add: t_def vs_def va_def)
qed


lemma CurvyPong_generate_scan_valid:
  fixes p :: "'a scan_param_scheme"
  assumes "0 < width p" "0 < height p" "0 < spacing p" "0 < velocity p" "0 < sample_interval p"
  shows "\<exists>x y t rows.
           pong_numvert (width p) (height p) (spacing p) = Some (Inr (x, y)) \<and>
           CurvyPong_generate_scan p = Some (Inr (t, rows)) \<and>
           t = \<lparr>vavg = velocity p,
                peri_x = of_int x * vert_spacing_of (spacing p) * 2 / velocity p,
                peri_y = of_int y * vert_spacing_of (spacing p) * 2 / velocity p,
                period = of_int (x * y) * vert_spacing_of (spacing p) * 2 / velocity p,
                pongcount = \<lceil>of_int (x * y) * vert_spacing_of (spacing p) * 2
                               / velocity p / sample_interval p\<rceil>,
                amp_x = of_int x * vert_spacing_of (spacing p) / 2,
                amp_y = of_int y * vert_spacing_of (spacing p) / 2\<rparr> \<and>
           0 < pongcount t \<and> int (length rows) = pongcount t \<and>
           (\<forall>i<length rows. row_time_offset (rows ! i) = of_nat i * sample_interval p)"
proof -
  define vs where "vs = vert_spacing_of (spacing p)"
  define va where "va = velocity p"
  have vs: "0 < vs" using assms(3) by (simp add: vs_def vert_spacing_of_def)
  have va: "0 < va" using assms(4) by (simp add: va_def)
  obtain x y where xy: "pong_numvert (width p) (height p) (spacing p) = Some (Inr (x, y))"
      "1 \<le> x" "1 \<le> y"
    using pong_numvert_valid [OF assms(1,2,3)] by (elim exE conjE) (rule that)
  define t where "t = \<lparr>vavg = va,
                peri_x = of_int x * vs * 2 / va,
                peri_y = of_int y * vs * 2 / va,
                period = of_int (x * y) * vs * 2 / va,
                pongcount = \<lceil>of_int (x * y) * vs * 2 / va / sample_interval p\<rceil>,
                amp_x = of_int x * vs / 2,
                amp_y = of_int y * vs / 2\<rparr>"
  have per: "pong_periods va (sample_interval p) vs x y = Inr t"
    unfolding t_def using va assms(5) by (intro pong_periods_ok) simp_all
  have px: "peri_x t \<noteq> 0" and py: "peri_y t \<noteq> 0"
    using xy(2,3) vs va by (simp_all add: t_def)
  have "0 < x * y" using xy(2,3) by (simp add: zero_less_mult_iff)
  then have "0 < real_of_int (x * y)" by (simp only: of_int_0_less_iff)
  then have "0 < of_int (x * y) * vs * 2 / va / sample_interval p"
    using vs va assms(5) by simp
  then have cnt: "0 < pongcount t"
    by (simp add: t_def ceiling_less_iff)
  have "\<exists>rs. pong_loop (nat (pongcount t)) 0 (sample_interval p)
               (CurvyPong_row (num_term p) t (angle p * pi / 180)) = Inr rs \<and>
             length rs = nat (pongcount t) \<and>
             (\<forall>i<nat (pongcount t). row_time_offset (rs ! i) = 0 + of_nat i * sample_interval p)"
    by (rule pong_loop_rows) (rule CurvyPong_row_ok [OF px py])
  then obtain rows where rows:
      "pong_loop (nat (pongcount t)) 0 (sample_interval p)
               (CurvyPong_row (num_term p) t (angle p * pi / 180)) = Inr rows"
      "length rows = nat (pongcount t)"
      "\<forall>i<nat (pongcount t). row_time_offset (rows ! i) = 0 + of_nat i * sample_interval p"
    by (elim exE conjE) (rule that)
  have one: "CurvyPong_generate_scan p = Some (Inr (t, rows))"
    using xy(1) per rows(1) cnt
    by (simp add: CurvyPong_generate_scan_def bind_err_def CurvyPong_vavg_def vs_def va_def)
  have len: "int (length rows) = pongcount t"
    using rows(2) cnt by simp
  have times: "\<forall>i<length rows. row_time_offset (rows ! i) = of_nat i * sample_interval p"
    using rows(2,3) by simp
  show ?thesis
    using xy(1) one cnt len times
    by (intro exI [of _ x] exI [of _ y] exI [of _ t] exI [of _ rows] conjI)
       (simp_all add: t_def vs_def va_def)
qed

text \<open>
  C1, as stated, fails for \<^verbatim>\<open>Pong\<close> of coordinates.py: there the per-axis velocity is the
  input velocity divided by \<open>sqrt 2\<close>. In the scenario of the specification the generator
  returns, and its \<open>vavg\<close> is not the velocity 0.5.
\<close>

theorem Pong_vavg_counterexample:
  "map_option (map_sum id (\<lambda>r. vavg (fst r))) (Pong_one_period scenario_param)
     = Some (Inr (velocity scenario_param / sqrt 2)) \<and>
   velocity scenario_param / sqrt 2 \<noteq> velocity scenario_param"
proof -
  have pos: "0 < width scenario_param" "0 < height scenario_param" "0 < spacing scenario_param"
      "0 < velocity scenario_param" "0 < sample_interval scenario_param"
    by (simp_all add: scenario_param_def)
  obtain x y t data where
      "Pong_one_period scenario_param = Some (Inr (t, data))"
      "vavg t = velocity scenario_param / sqrt 2"
    using Pong_one_period_valid [OF pos] by (elim exE conjE) (rule that, assumption, simp)
  then have "map_option (map_sum id (\<lambda>r. vavg (fst r))) (Pong_one_period scenario_param)
     = Some (Inr (velocity scenario_param / sqrt 2))"
    by simp
  moreover have "velocity scenario_param / sqrt 2 \<noteq> velocity scenario_param"
    by (simp add: scenario_param_def)
  ultimately show ?thesis ..
qed

text \<open>
  C1, amended: for every valid input (positive width, height, spacing, velocity and
  sample interval) both generators return. The per-axis average velocity \<open>vavg\<close> is
  \<open>velocity / sqrt 2\<close> in \<^verbatim>\<open>Pong\<close> (coordinates.py) and \<open>velocity\<close> in \<^verbatim>\<open>CurvyPong\<close>
  (scanning.py). In both, \<open>peri_x = x_numvert * vert_spacing * 2 / vavg\<close>,
  \<open>peri_y = y_numvert * vert_spacing * 2 / vavg\<close>, the total period is
  \<open>x_numvert * y_numvert * vert_spacing * 2 / vavg\<close>, and one generated period has
  \<open>ceil (period / sample_interval)\<close> samples.
\<close>

theorem pong_periods_and_sample_count:
  fixes p :: "'a scan_param_scheme"
  assumes "0 < width p" "0 < height p" "0 < spacing p" "0 < velocity p" "0 < sample_interval p"
  shows "\<exists>x y t data t' rows.
           pong_numvert (width p) (height p) (spacing p) = Some (Inr (x, y)) \<and>
           Pong_one_period p = Some (Inr (t, data)) \<and>
           vavg t = velocity p / sqrt 2 \<and>
           peri_x t = of_int x * vert_spacing_of (spacing p) * 2 / vavg t \<and>
           peri_y t = of_int y * vert_spacing_of (spacing p) * 2 / vavg t \<and>
           period t = of_int x * of_int y * vert_spacing_of (spacing p) * 2 / vavg t \<and>
           pongcount t = \<lceil>period t / sample_interval p\<rceil> \<and>
           int (length data) = pongcount t \<and>
           CurvyPong_generate_scan p = Some (Inr (t', rows)) \<and>
           vavg t' = velocity p \<and>
           peri_x t' = of_int x * vert_spacing_of (spacing p) * 2 / vavg t' \<and>
           peri_y t' = of_int y * vert_spacing_of (spacing p) * 2 / vavg t' \<and>
           period t' = of_int x * of_int y * vert_spacing_of (spacing p) * 2 / vavg t' \<and>
           pongcount t' = \<lceil>period t' / sample_interval p\<rceil> \<and>
           int (length rows) = pongcount t'"
proof -
  obtain x y t data where a:
      "pong_numvert (width p) (height p) (spacing p) = Some (Inr (x, y))"
      "Pong_one_period p = Some (Inr (t, data))"
      "t = \<lparr>vavg = velocity p / sqrt 2,
                peri_x = of_int x * vert_spacing_of (spacing p) * 2 / (velocity p / sqrt 2),
                peri_y = of_int y * vert_spacing_of (spacing p) * 2 / (velocity p / sqrt 2),
                period = of_int (x * y) * vert_spacing_of (spacing p) * 2 / (velocity p / sqrt 2),
                pongcount = \<lceil>of_int (x * y) * vert_spacing_of (spacing p) * 2
                               / (velocity p / sqrt 2) / sample_interval p\<rceil>,
                amp_x = of_int x * vert_spacing_of (spacing p) / 2,
                amp_y = of_int y * vert_spacing_of (spacing p) / 2\<rparr>"
      "int (length data) = pongcount t"
    using Pong_one_period_valid [OF assms] by (elim exE conjE) (rule that)
  obtain x' y' t' rows where b:
      "pong_numvert (width p) (height p) (spacing p) = Some (Inr (x', y'))"
      "CurvyPong_generate_scan p = Some (Inr (t', rows))"
      "t' = \<lparr>vavg = velocity p,
                peri_x = of_int x' * vert_spacing_of (spacing p) * 2 / velocity p,
                peri_y = of_int y' * vert_spacing_of (spacing p) * 2 / velocity p,
                period = of_int (x' * y') * vert_spacing_of (spacing p) * 2 / velocity p,
                pongcount = \<lceil>of_int (x' * y') * vert_spacing_of (spacing p) * 2
                               / velocity p / sample_interval p\<rceil>,
                amp_x = of_int x' * vert_spacing_of (spacing p) / 2,
                amp_y = of_int y' * vert_spacing_of (spacing p) / 2\<rparr>"
      "int (length rows) = pongcount t'"
    using CurvyPong_generate_scan_valid [OF assms] by (elim exE conjE) (rule that)
  have same: "x' = x" "y' = y"
    using a(1) b(1) by simp_all
  show ?thesis
    using a(1,2,4) b(2,4)
    by (intro exI [of _ x] exI [of _ y] exI [of _ t] exI [of _ data] exI [of _ t']
          exI [of _ rows] conjI)
       (simp_all add: a(3) b(3) same)
qed

theorem pong_periods_and_sample_count_witness:
  "0 < width scenario_param \<and> 0 < height scenario_param \<and> 0 < spacing scenario_param \<and>
   0 < velocity scenario_param \<and> 0 < sample_interval scenario_param \<and>
   (\<exists>x y t data t' rows.
           pong_numvert (width scenario_param) (height scenario_param) (spacing scenario_param)
             = Some (Inr (x, y)) \<and>
           Pong_one_period scenario_param = Some (Inr (t, data)) \<and>
           vavg t = velocity scenario_param / sqrt 2 \<and>
           peri_x t = of_int x * vert_spacing_of (spacing scenario_param) * 2 / vavg t \<and>
           peri_y t = of_int y * vert_spacing_of (spacing scenario_param) * 2 / vavg t \<and>
           period t = of_int x * of_int y * vert_spacing_of (spacing scenario_param) * 2 / vavg t \<and>
           pongcount t = \<lceil>period t / sample_interval scenario_param\<rceil> \<and>
           int (length data) = pongcount t \<and>
           CurvyPong_generate_scan scenario_param = Some (Inr (t', rows)) \<and>
           vavg t' = velocity scenario_param \<and>
           peri_x t' = of_int x * vert_spacing_of (spacing scenario_param) * 2 / vavg t' \<and>
           peri_y t' = of_int y * vert_spacing_of (spacing scenario_param) * 2 / vavg t' \<and>
           period t' = of_int x * of_int y * vert_spacing_of (spacing scenario_param) * 2 / vavg t' \<and>
           pongcount t' = \<lceil>period t' / sample_interval scenario_param\<rceil> \<and>
           int (length rows) = pongcount t')"
proof -
  have pos: "0 < width scenario_param" "0 < height scenario_param" "0 < spacing scenario_param"
      "0 < velocity scenario_param" "0 < sample_interval scenario_param"
    by (simp_all add: scenario_param_def)
  from pong_periods_and_sample_count [OF pos] pos show ?thesis
    by (intro conjI)
qed

section \<open>RepeatTiler: length, shifted copies and time offsets\<close>


lemma shift_time_0: "shift_time 0 data = data"
  by (induction data) (auto simp: shift_time_def)

lemma length_shift_time: "length (shift_time d data) = length data"
  by (simp add: shift_time_def)

lemma nth_shift_time:
  "i < length data \<Longrightarrow>
   shift_time d data ! i = (time_offset (data ! i) + d, fst (snd (data ! i)), snd (snd (data ! i)))"
  by (cases "data ! i") (simp add: shift_time_def time_offset_def)

lemma repeat_foldl_concat:
  "1 \<le> n \<Longrightarrow>
   foldl (\<lambda>d i. d @ shift_time (one * of_nat i) data) data [1..<n] =
   concat (map (\<lambda>i. shift_time (one * of_nat i) data) [0..<n])"
proof (induction n)
  case 0
  then show ?case by simp
next
  case (Suc n)
  show ?case
  proof (cases "n = 0")
    case True
    then show ?thesis by (simp add: shift_time_0)
  next
    case False
    then have "1 \<le> n" by simp
    from Suc.IH [OF this] show ?thesis
      using \<open>1 \<le> n\<close> by simp
  qed
qed

lemma concat_blocks:
  assumes "\<And>k. length (f k) = m"
  shows "length (concat (map f [0..<n])) = n * m"
    and "k < n \<Longrightarrow> i < m \<Longrightarrow> concat (map f [0..<n]) ! (k * m + i) = f k ! i"
proof -
  show len: "length (concat (map f [0..<n])) = n * m" for n
    by (induction n) (simp_all add: assms)
  show "k < n \<Longrightarrow> i < m \<Longrightarrow> concat (map f [0..<n]) ! (k * m + i) = f k ! i"
  proof (induction n)
    case 0
    then show ?case by simp
  next
    case (Suc n)
    show ?case
    proof (cases "k < n")
      case True
      then have "k * m + i < n * m"
        using Suc.prems(2)
        by (metis add.commute mult.commute mult_Suc_right nat_add_left_cancel_less
            less_le_trans Suc_leI mult_le_mono1 add_less_cancel_left)
      then show ?thesis
        using Suc.IH [OF True Suc.prems(2)] by (simp add: nth_append len)
    next
      case False
      then have "k = n" using Suc.prems(1) by simp
      then show ?thesis
        using Suc.prems(2) by (simp add: nth_append len)
    qed
  qed
qed


lemma repeat_scan_Count:
  assumes "data \<noteq> []"
  shows "repeat_scan dt (Count n) msd data =
           Inr (n, concat (map (\<lambda>i. shift_time ((time_offset (last data) + dt) * of_nat i) data)
                            [0..<max 1 (nat n)]))"
proof -
  obtain a rest where d: "data = a # rest"
    using assms by (cases data) auto
  let ?one = "time_offset (last data) + dt"
  let ?f = "\<lambda>d i. d @ shift_time (?one * of_nat i) data"
  have "foldl ?f data [1..<nat n] = concat (map (\<lambda>i. shift_time (?one * of_nat i) data)
                                              [0..<max 1 (nat n)])"
  proof (cases "1 \<le> nat n")
    case True
    then have "max 1 (nat n) = nat n" by simp
    with repeat_foldl_concat [OF True, of "?one" data] show ?thesis by simp
  next
    case False
    then have "nat n = 0" by simp
    then show ?thesis by (simp add: shift_time_0)
  qed
  then show ?thesis
    unfolding d repeat_scan_def
    by (simp add: resolve_num_repeat_def bind_err_def Let_def)
qed

lemma repeat_scan_tiled:
  assumes "data \<noteq> []" "1 \<le> n"
  shows "\<exists>out. repeat_scan dt (Count n) msd data = Inr (n, out) \<and>
           length out = nat n * length data \<and>
           (\<forall>k<nat n. \<forall>i<length data.
              out ! (k * length data + i) =
                (time_offset (data ! i) + (time_offset (last data) + dt) * of_nat k,
                 fst (snd (data ! i)), snd (snd (data ! i))))"
proof -
  let ?one = "time_offset (last data) + dt"
  let ?f = "\<lambda>i. shift_time (?one * of_nat i) data"
  define out where "out = concat (map ?f [0..<nat n])"
  have mx: "max 1 (nat n) = nat n" using assms(2) by simp
  have res: "repeat_scan dt (Count n) msd data = Inr (n, out)"
    using repeat_scan_Count [OF assms(1), of dt n msd] unfolding mx by (simp add: out_def)
  have len: "length out = nat n * length data"
    unfolding out_def by (rule concat_blocks(1)) (rule length_shift_time)
  have nth: "out ! (k * length data + i) =
                (time_offset (data ! i) + ?one * of_nat k,
                 fst (snd (data ! i)), snd (snd (data ! i)))"
    if "k < nat n" "i < length data" for k i
  proof -
    have "out ! (k * length data + i) = ?f k ! i"
      unfolding out_def using that
      by (intro concat_blocks(2)) (simp_all add: length_shift_time)
    then show ?thesis
      using that(2) by (simp add: nth_shift_time)
  qed
  show ?thesis
    using res len nth by (intro exI [of _ out]) simp
qed

lemma div_mod_index:
  fixes m :: nat
  assumes "j < n * m"
  shows "j div m < n \<and> j mod m < m \<and> j = (j div m) * m + j mod m"
proof -
  have "0 < m" using assms by (cases m) auto
  then show ?thesis
    using assms by (simp add: less_mult_imp_div_less)
qed

lemma repeat_scan_uniform:
  assumes "data \<noteq> []" "1 \<le> n"
    and uni: "\<forall>i<length data. time_offset (data ! i) = of_nat i * dt"
  shows "\<exists>out. repeat_scan dt (Count n) msd data = Inr (n, out) \<and>
           length out = nat n * length data \<and>
           (\<forall>j<length out. time_offset (out ! j) = of_nat j * dt)"
proof -
  obtain out where out: "repeat_scan dt (Count n) msd data = Inr (n, out)"
      "length out = nat n * length data"
      "\<forall>k<nat n. \<forall>i<length data.
              out ! (k * length data + i) =
                (time_offset (data ! i) + (time_offset (last data) + dt) * of_nat k,
                 fst (snd (data ! i)), snd (snd (data ! i)))"
    using repeat_scan_tiled [OF assms(1,2), of dt msd] by (elim exE conjE) (rule that)
  let ?m = "length data"
  have m: "0 < ?m" using assms(1) by simp
  have lst: "time_offset (last data) = of_nat (?m - 1) * dt"
    using uni m assms(1) by (simp add: last_conv_nth)
  then have one: "time_offset (last data) + dt = of_nat ?m * dt"
    using m by (simp add: algebra_simps of_nat_diff)
  have "time_offset (out ! j) = of_nat j * dt" if "j < length out" for j
  proof -
    from that out(2) have j: "j div ?m < nat n" "j mod ?m < ?m" "j = (j div ?m) * ?m + j mod ?m"
      using div_mod_index [of j "nat n" ?m] by simp_all
    have "out ! j = out ! ((j div ?m) * ?m + j mod ?m)"
      using j(3) by simp
    also have "\<dots> = (time_offset (data ! (j mod ?m)) + (time_offset (last data) + dt) * of_nat (j div ?m),
                 fst (snd (data ! (j mod ?m))), snd (snd (data ! (j mod ?m))))"
      using out(3) j(1,2) by blast
    finally have "time_offset (out ! j) =
        time_offset (data ! (j mod ?m)) + (time_offset (last data) + dt) * of_nat (j div ?m)"
      by (simp add: time_offset_def)
    also have "\<dots> = of_nat (j mod ?m) * dt + of_nat ?m * dt * of_nat (j div ?m)"
      using uni j(2) one by simp
    also have "\<dots> = (of_nat (j div ?m) * of_nat ?m + of_nat (j mod ?m)) * dt"
      by (simp add: algebra_simps)
    also have "of_nat (j div ?m) * of_nat ?m + of_nat (j mod ?m) = (of_nat j :: real)"
      by (metis j(3) of_nat_add of_nat_mult)
    finally show ?thesis .
  qed
  then show ?thesis
    using out(1,2) by (intro exI [of _ out]) simp
qed


text \<open>
  C5, as stated, fails: the period is taken to be the last time offset plus the sample
  interval, which is one step too few or too many unless the series starts at 0. The
  uniformly spaced series 1, 2, 3 repeated twice becomes 1, 2, 3, 5, 6, 7: the step across
  the repeat boundary is 2, not 1.
\<close>

theorem repeat_scan_gap_counterexample:
  "map_sum id (\<lambda>r. map time_offset (snd r))
     (SkyPattern_init [(1, 0, 0), (2, 0, 0), (3, 0, 0)] True None (Some 2))
   = Inr [1, 2, 3, 5, 6, 7] \<and> (5::real) - 3 \<noteq> 2 - 1"
proof -
  have si: "sample_interval_of [(1, 0, 0), (2, 0, 0), (3, 0, 0)] = Inr 1"
    by (simp add: sample_interval_of_def np_diff_def np_mean_def np_std_def time_offset_def)
  have up: "[Suc 0..<2] = [Suc 0]"
    by (simp add: numeral_2_eq_2)
  have rs: "repeat_scan 1 (Count 2) None [(1, 0, 0), (2, 0, 0), (3, 0, 0)]
            = Inr (2, [(1, 0, 0), (2, 0, 0), (3, 0, 0), (5, 0, 0), (6, 0, 0), (7, 0, 0)])"
    by (simp add: repeat_scan_def resolve_num_repeat_def bind_err_def up shift_time_def
        time_offset_def)
  show ?thesis
    by (simp add: SkyPattern_init_def SkyPattern_clean_param_def si rs bind_err_def
        time_offset_def)
qed

text \<open>
  C5, amended: for every non-empty one-period trajectory whose time offsets are
  \<open>0, dt, 2 dt, \<dots>\<close> (uniformly spaced by the sample interval \<open>dt > 0\<close> and starting at 0)
  and every \<open>num_repeat \<ge> 1\<close>, the repeated trajectory's length is the base length times
  \<open>num_repeat\<close>; copy number \<open>k\<close> (0-based) carries the base samples with the time offset
  shifted by \<open>one_period_duration * k\<close>, where
  \<open>one_period_duration = last_time_offset + sample_interval\<close>; and the resulting time
  offsets are strictly increasing with the constant step \<open>dt\<close>, also across every repeat
  boundary.
\<close>

theorem repeat_scan_uniform_tiling:
  assumes "data \<noteq> []" "1 \<le> n" "0 < dt"
    and "\<forall>i<length data. time_offset (data ! i) = of_nat i * dt"
  shows "\<exists>out. repeat_scan dt (Count n) msd data = Inr (n, out) \<and>
           length out = length data * nat n \<and>
           (\<forall>k<nat n. \<forall>i<length data.
              out ! (k * length data + i) =
                (time_offset (data ! i) + (time_offset (last data) + dt) * of_nat k,
                 fst (snd (data ! i)), snd (snd (data ! i)))) \<and>
           (\<forall>j. Suc j < length out \<longrightarrow>
              time_offset (out ! Suc j) - time_offset (out ! j) = dt \<and>
              time_offset (out ! j) < time_offset (out ! Suc j))"
proof -
  obtain out where out: "repeat_scan dt (Count n) msd data = Inr (n, out)"
      "length out = nat n * length data"
      "\<forall>k<nat n. \<forall>i<length data.
              out ! (k * length data + i) =
                (time_offset (data ! i) + (time_offset (last data) + dt) * of_nat k,
                 fst (snd (data ! i)), snd (snd (data ! i)))"
    using repeat_scan_tiled [OF assms(1,2), of dt msd] by (elim exE conjE) (rule that)
  obtain out' where out': "repeat_scan dt (Count n) msd data = Inr (n, out')"
      "\<forall>j<length out'. time_offset (out' ! j) = of_nat j * dt"
    using repeat_scan_uniform [OF assms(1,2,4), of msd] by (elim exE conjE) (rule that)
  have eq: "out' = out"
    using out(1) out'(1) by simp
  have step: "time_offset (out ! Suc j) - time_offset (out ! j) = dt \<and>
              time_offset (out ! j) < time_offset (out ! Suc j)"
    if "Suc j < length out" for j
  proof -
    have "time_offset (out ! Suc j) = of_nat (Suc j) * dt" "time_offset (out ! j) = of_nat j * dt"
      using out'(2) that unfolding eq by simp_all
    then show ?thesis
      using assms(3) by (simp add: algebra_simps)
  qed
  show ?thesis
    using out step by (intro exI [of _ out]) (simp add: mult.commute)
qed

theorem repeat_scan_uniform_tiling_witness:
  "([(0, 0, 0), (1, 1, 1)] :: sample list) \<noteq> ([] :: sample list) \<and> (1::int) \<le> 2 \<and> (0::real) < 1 \<and>
   time_offset (([(0, 0, 0), (1, 1, 1)] :: sample list) ! 0) = of_nat 0 * 1 \<and>
   time_offset (([(0, 0, 0), (1, 1, 1)] :: sample list) ! 1) = of_nat 1 * 1 \<and>
   (\<exists>out. repeat_scan 1 (Count 2) None ([(0, 0, 0), (1, 1, 1)] :: sample list) = Inr (2, out) \<and>
           length out = length ([(0, 0, 0), (1, 1, 1)] :: sample list) * nat 2 \<and>
           (\<forall>k<nat 2. \<forall>i<length ([(0, 0, 0), (1, 1, 1)] :: sample list).
              out ! (k * length ([(0, 0, 0), (1, 1, 1)] :: sample list) + i) =
                (time_offset (([(0, 0, 0), (1, 1, 1)] :: sample list) ! i)
                   + (time_offset (last ([(0, 0, 0), (1, 1, 1)] :: sample list)) + 1) * of_nat k,
                 fst (snd (([(0, 0, 0), (1, 1, 1)] :: sample list) ! i)), snd (snd (([(0, 0, 0), (1, 1, 1)] :: sample list) ! i)))) \<and>
           (\<forall>j. Suc j < length out \<longrightarrow>
              time_offset (out ! Suc j) - time_offset (out ! j) = 1 \<and>
              time_offset (out ! j) < time_offset (out ! Suc j)))"
proof -
  have h1: "([(0, 0, 0), (1, 1, 1)] :: sample list) \<noteq> ([] :: sample list)" by simp
  have h2: "(1::int) \<le> 2" by simp
  have h3: "(0::real) < 1" by simp
  have h4: "\<forall>i<length ([(0, 0, 0), (1, 1, 1)] :: sample list).
      time_offset (([(0, 0, 0), (1, 1, 1)] :: sample list) ! i) = of_nat i * 1"
    by (simp add: time_offset_def less_Suc_eq)
  have t0: "time_offset (([(0, 0, 0), (1, 1, 1)] :: sample list) ! 0) = of_nat 0 * 1"
    and t1: "time_offset (([(0, 0, 0), (1, 1, 1)] :: sample list) ! 1) = of_nat 1 * 1"
    by (simp_all add: time_offset_def)
  note T = repeat_scan_uniform_tiling [OF h1 h2 h3 h4, of None]
  show ?thesis
    by (rule conjI [OF h1 conjI [OF h2 conjI [OF h3 conjI [OF t0 conjI [OF t1 T]]]]])
qed

section \<open>Daisy: the integration loop and the generated table\<close>


lemma curved_motion_error:
  "curved_motion Rt dt Nx Ny st = Inl e \<Longrightarrow> e = ZeroDivisionError \<and> Rt = 0"
  by (cases st) (auto simp: curved_motion_def Let_def split: if_splits)

lemma motion_outside_zero_division:
  assumes "r \<noteq> 0" "motion_outside Rt Ra dt r st = Inl ZeroDivisionError"
  shows "Rt = 0"
proof -
  obtain x y vx vy speed where st: "st = (x, y, vx, vy, speed)"
    by (cases st) auto
  show ?thesis
    using assms
    by (auto simp: st motion_outside_def pydiv_def bind_err_def math_sqrt_def
        split: if_splits dest: curved_motion_error)
qed

lemma daisy_step_zero_division:
  assumes "0 < R0" "daisy_step s0 a R0 Rt Ra dt st = Inl ZeroDivisionError"
  shows "Rt = 0"
proof -
  obtain x y vx vy speed where st: "st = (x, y, vx, vy, speed)"
    by (cases st) auto
  let ?r = "sqrt (x * x + y * y)"
  show ?thesis
  proof (cases "?r < R0")
    case True
    then show ?thesis
      using assms(2) by (simp add: st daisy_step_def Let_def)
  next
    case False
    with assms(1) have "?r \<noteq> 0" by linarith
    moreover have "motion_outside Rt Ra dt ?r (x, y, vx, vy, ramp_speed s0 a dt speed)
        = Inl ZeroDivisionError"
      using assms(2) False by (simp add: st daisy_step_def Let_def)
    ultimately show ?thesis
      by (rule motion_outside_zero_division)
  qed
qed

lemma daisy_loop_zero_division:
  assumes "0 < R0"
  shows "daisy_loop n (daisy_step s0 a R0 Rt Ra dt) st = Inl ZeroDivisionError \<Longrightarrow> Rt = 0"
proof (induction n arbitrary: st)
  case 0
  then show ?case by simp
next
  case (Suc n)
  show ?case
  proof (cases "daisy_step s0 a R0 Rt Ra dt st")
    case (Inl e)
    with Suc.prems have "daisy_step s0 a R0 Rt Ra dt st = Inl ZeroDivisionError"
      by (simp add: bind_err_def)
    then show ?thesis
      using assms by (rule daisy_step_zero_division [rotated])
  next
    case (Inr st')
    with Suc.prems have "daisy_loop n (daisy_step s0 a R0 Rt Ra dt) st' = Inl ZeroDivisionError"
      by (simp add: bind_err_def split: sum.splits)
    then show ?thesis by (rule Suc.IH)
  qed
qed

lemma daisy_step_origin:
  assumes "0 < R0"
  shows "daisy_step s0 a R0 Rt Ra dt (0, 0, vx, vy, speed) =
           Inr (0 + vx * ramp_speed s0 a dt speed * dt, 0 + vy * ramp_speed s0 a dt speed * dt,
                vx, vy, ramp_speed s0 a dt speed)"
  using assms by (simp add: daisy_step_def straight_motion_def Let_def)


lemma curved_motion_ok: "Rt \<noteq> 0 \<Longrightarrow> \<not> isl (curved_motion Rt dt Nx Ny st)"
  by (cases st) (simp add: curved_motion_def Let_def)

lemma motion_outside_ok:
  assumes "0 < R0" "R0 \<le> r" "Rt \<noteq> 0" "Ra * Ra \<le> R0 * R0"
  shows "\<not> isl (motion_outside Rt Ra dt r st)"
proof -
  obtain x y vx vy speed where st: "st = (x, y, vx, vy, speed)"
    by (cases st) auto
  have r: "0 < r" using assms(1,2) by linarith
  have "R0 * R0 \<le> r * r"
    using assms(1,2) by (intro mult_mono) simp_all
  then have "Ra * Ra \<le> r * r"
    using assms(4) by linarith
  then have "Ra * Ra / r / r \<le> 1"
    using r by (simp add: field_simps)
  then have sq: "math_sqrt (1 - Ra * Ra / r / r) = Inr (sqrt (1 - Ra * Ra / r / r))"
    by (simp add: math_sqrt_def)
  have "motion_outside Rt Ra dt r st =
          (if (- (x / r) * vx - y / r * vy) > sqrt (1 - Ra * Ra / r / r)
           then Inr (straight_motion dt st)
           else if (- (x / r) * vy + y / r * vx) > 0 then curved_motion Rt dt vy (- vx) st
           else curved_motion Rt dt (- vy) vx st)"
    using r sq unfolding st motion_outside_def
    by (simp only: pydiv_def bind_err_def prod.case) simp
  then show ?thesis
    using curved_motion_ok [OF assms(3)] by simp
qed

lemma daisy_step_ok:
  assumes "0 < R0" "Rt \<noteq> 0" "Ra * Ra \<le> R0 * R0"
  shows "\<exists>st'. daisy_step s0 a R0 Rt Ra dt st = Inr st'"
proof -
  obtain x y vx vy speed where st: "st = (x, y, vx, vy, speed)"
    by (cases st) auto
  have "\<not> isl (daisy_step s0 a R0 Rt Ra dt st)"
  proof (cases "sqrt (x * x + y * y) < R0")
    case True
    then show ?thesis by (simp add: st daisy_step_def Let_def)
  next
    case False
    then have "R0 \<le> sqrt (x * x + y * y)" by simp
    from motion_outside_ok [OF assms(1) this assms(2,3)] show ?thesis
      using False by (simp add: st daisy_step_def Let_def)
  qed
  then show ?thesis
    by (metis sum.collapse(2))
qed

lemma daisy_loop_ok:
  assumes "0 < R0" "Rt \<noteq> 0" "Ra * Ra \<le> R0 * R0"
  shows "\<exists>xy. daisy_loop n (daisy_step s0 a R0 Rt Ra dt) st = Inr xy \<and> length xy = n"
proof (induction n arbitrary: st)
  case 0
  show ?case by simp
next
  case (Suc n)
  obtain st' where st': "daisy_step s0 a R0 Rt Ra dt st = Inr st'"
    using daisy_step_ok [OF assms] by blast
  obtain xy where xy: "daisy_loop n (daisy_step s0 a R0 Rt Ra dt) st' = Inr xy" "length xy = n"
    using Suc.IH by blast
  show ?case
    using st' xy by (simp add: bind_err_def)
qed

lemma Daisy_generate_scan_result:
  assumes "0 < daisy_R0 p" "daisy_Rt p \<noteq> 0" "daisy_Ra p * daisy_Ra p \<le> daisy_R0 p * daisy_R0 p"
    and "0 < daisy_T p" "0 < daisy_sample_interval p"
  shows "Daisy_generate_scan p =
           (if \<lfloor>daisy_T p / daisy_sample_interval p\<rfloor> = \<lceil>daisy_T p / daisy_sample_interval p\<rceil>
            then Daisy_generate_scan p else Inl ValueError) \<and>
         (\<lfloor>daisy_T p / daisy_sample_interval p\<rfloor> = \<lceil>daisy_T p / daisy_sample_interval p\<rceil> \<longrightarrow>
           (\<exists>rows. Daisy_generate_scan p = Inr rows \<and>
              length rows = nat \<lfloor>daisy_T p / daisy_sample_interval p\<rfloor> \<and>
              (\<forall>i<length rows. time_offset (rows ! i) = of_nat i * daisy_sample_interval p)))"
proof -
  let ?T = "daisy_T p" and ?dt = "daisy_sample_interval p"
  let ?N = "nat \<lfloor>?T / ?dt\<rfloor>"
  let ?step = "daisy_step (daisy_velocity p * 3600) (daisy_start_acc p * 3600) (daisy_R0 p * 3600)
      (daisy_Rt p * 3600) (daisy_Ra p * 3600) ?dt"
  have q: "0 < ?T / ?dt" using assms(4,5) by simp
  then have fl: "0 \<le> \<lfloor>?T / ?dt\<rfloor>" by simp
  have steps: "daisy_num_steps ?T ?dt = Inr ?N"
    using q assms(5) fl by (simp add: daisy_num_steps_def py_int_def)
  have "daisy_Ra p * 3600 * (daisy_Ra p * 3600) \<le> daisy_R0 p * 3600 * (daisy_R0 p * 3600)"
    using assms(3) by simp
  then obtain xy where xy: "daisy_loop ?N ?step (0, daisy_y_offset p * 3600, 1, 0, 0) = Inr xy"
      "length xy = ?N"
    using daisy_loop_ok [of "daisy_R0 p * 3600" "daisy_Rt p * 3600" "daisy_Ra p * 3600"] assms(1,2)
    by (metis mult_pos_pos zero_less_numeral mult_eq_0_iff zero_neq_numeral)
  have gen: "Daisy_generate_scan p = data_frame (np_arange ?T ?dt) xy"
    using steps xy(1) by (simp add: Daisy_generate_scan_def bind_err_def Let_def)
  have len: "length (np_arange ?T ?dt) = nat \<lceil>?T / ?dt\<rceil>"
    by (simp add: np_arange_def)
  have cl: "0 < \<lceil>?T / ?dt\<rceil>" using q by (simp add: ceiling_less_iff)
  show ?thesis
  proof (cases "\<lfloor>?T / ?dt\<rfloor> = \<lceil>?T / ?dt\<rceil>")
    case True
    then have same: "length (np_arange ?T ?dt) = length xy"
      using len xy(2) by simp
    define rows where "rows = map (\<lambda>(t, x, y). (t, x / 3600, y / 3600)) (zip (np_arange ?T ?dt) xy)"
    have res: "Daisy_generate_scan p = Inr rows"
      using gen same by (simp add: data_frame_def rows_def)
    have lr: "length rows = ?N"
      using same xy(2) by (simp add: rows_def)
    have "time_offset (rows ! i) = of_nat i * ?dt" if "i < length rows" for i
    proof -
      have i: "i < length (np_arange ?T ?dt)" "i < length xy"
        using that lr same xy(2) by simp_all
      then have "rows ! i = (np_arange ?T ?dt ! i, fst (xy ! i) / 3600, snd (xy ! i) / 3600)"
        by (cases "xy ! i") (simp add: rows_def)
      moreover have "np_arange ?T ?dt ! i = of_nat i * ?dt"
        using i(1) by (simp add: np_arange_def)
      ultimately show ?thesis by (simp add: time_offset_def)
    qed
    then show ?thesis
      using True res lr by simp
  next
    case False
    then have "nat \<lfloor>?T / ?dt\<rfloor> \<noteq> nat \<lceil>?T / ?dt\<rceil>"
      by (metis fl cl eq_nat_nat_iff less_imp_le)
    then have "length (np_arange ?T ?dt) \<noteq> length xy"
      using len xy(2) by simp
    then have "Daisy_generate_scan p = Inl ValueError"
      using gen by (simp add: data_frame_def)
    then show ?thesis
      using False by simp
  qed
qed


lemma Daisy_generate_scan_mismatch:
  assumes "0 < daisy_R0 p" "daisy_Rt p \<noteq> 0" "daisy_Ra p * daisy_Ra p \<le> daisy_R0 p * daisy_R0 p"
    and "0 < daisy_T p" "0 < daisy_sample_interval p"
    and "\<lfloor>daisy_T p / daisy_sample_interval p\<rfloor> \<noteq> \<lceil>daisy_T p / daisy_sample_interval p\<rceil>"
  shows "Daisy_generate_scan p = Inl ValueError"
  using Daisy_generate_scan_result [OF assms(1-5)] assms(6) by metis

lemma Daisy_generate_scan_exact:
  assumes "0 < daisy_R0 p" "daisy_Rt p \<noteq> 0" "daisy_Ra p * daisy_Ra p \<le> daisy_R0 p * daisy_R0 p"
    and "0 < daisy_T p" "0 < daisy_sample_interval p"
    and "\<lfloor>daisy_T p / daisy_sample_interval p\<rfloor> = \<lceil>daisy_T p / daisy_sample_interval p\<rceil>"
  shows "\<exists>rows. Daisy_generate_scan p = Inr rows \<and>
           length rows = nat \<lfloor>daisy_T p / daisy_sample_interval p\<rfloor> \<and>
           (\<forall>i<length rows. time_offset (rows ! i) = of_nat i * daisy_sample_interval p)"
  using Daisy_generate_scan_result [OF assms(1-5)] assms(6) by metis

text \<open>
  C8: the loop runs \<open>N = floor (T / dt)\<close> steps from the tangent \<open>(1, 0)\<close> and the position
  \<open>(0, y_offset)\<close> and stores one position per step, but the time column is
  \<^verbatim>\<open>np.arange(0, T, dt)\<close>, which has \<open>ceil (T / dt)\<close> entries. When \<open>T\<close> is not a multiple of
  \<open>dt\<close> the two lengths differ and no trajectory is produced: for \<open>T = 1\<close>, \<open>dt = 0.3\<close> there
  are 3 steps and 4 time offsets, and the construction raises ValueError.
\<close>

theorem Daisy_sample_count_mismatch:
  "daisy_num_steps 1 (3 / 10) = Inr 3 \<and>
   length (np_arange 1 (3 / 10)) = 4 \<and>
   Daisy_init \<lparr>dkw_velocity = Some 1, dkw_start_acc = Some 1, dkw_R0 = Some 1,
               dkw_Rt = Some 1, dkw_Ra = Some 0, dkw_T = Some 1,
               dkw_sample_interval = Some (3 / 10), dkw_y_offset = None,
               dkw_max_scan_duration = None, dkw_num_repeat = None\<rparr> = Inl ValueError"
proof -
  define p where "p = \<lparr>daisy_velocity = 1, daisy_start_acc = 1, daisy_R0 = 1, daisy_Rt = 1,
            daisy_Ra = 0, daisy_T = 1, daisy_sample_interval = 3 / 10, daisy_y_offset = 0,
            daisy_max_scan_duration = None, daisy_num_repeat = None\<rparr>"
  have fl: "\<lfloor>(10::real) / 3\<rfloor> = 3" by (simp add: floor_eq_iff)
  have cl: "\<lceil>(10::real) / 3\<rceil> = 4" by (simp add: ceiling_eq_iff)
  have steps: "daisy_num_steps 1 (3 / 10) = Inr 3"
    using fl by (simp add: daisy_num_steps_def py_int_def)
  have len: "length (np_arange 1 (3 / 10)) = 4"
    using cl by (simp add: np_arange_def)
  have clean: "Daisy_clean_param \<lparr>dkw_velocity = Some 1, dkw_start_acc = Some 1, dkw_R0 = Some 1,
               dkw_Rt = Some 1, dkw_Ra = Some 0, dkw_T = Some 1,
               dkw_sample_interval = Some (3 / 10), dkw_y_offset = None,
               dkw_max_scan_duration = None, dkw_num_repeat = None\<rparr> = Inr p"
    by (simp add: Daisy_clean_param_def required_def get_default_def bind_err_def p_def)
  have "Daisy_generate_scan p = Inl ValueError"
    by (rule Daisy_generate_scan_mismatch) (simp_all add: p_def fl cl)
  then show ?thesis
    using steps len clean by (simp add: Daisy_init_def bind_err_def)
qed

text \<open>
  C10: with \<open>R0 > 0\<close> the divisions by the radial distance \<open>r\<close> are evaluated only where
  \<open>r \<ge> R0 > 0\<close>. A step, and so the whole loop, can evaluate a division by zero only
  through a zero turn radius \<open>Rt\<close>, never through \<open>r\<close>; and a step that starts at the
  origin takes the straight branch: the heading \<open>(vx, vy)\<close> is unchanged and the position
  advances along it at the ramped speed.
\<close>

theorem daisy_radial_division_safe:
  assumes "0 < R0"
  shows "(daisy_step s0 a R0 Rt Ra dt st = Inl ZeroDivisionError \<longrightarrow> Rt = 0) \<and>
         (daisy_loop n (daisy_step s0 a R0 Rt Ra dt) st = Inl ZeroDivisionError \<longrightarrow> Rt = 0) \<and>
         daisy_step s0 a R0 Rt Ra dt (0, 0, vx, vy, speed) =
           Inr (0 + vx * ramp_speed s0 a dt speed * dt, 0 + vy * ramp_speed s0 a dt speed * dt,
                vx, vy, ramp_speed s0 a dt speed)"
proof (intro conjI impI)
  assume "daisy_step s0 a R0 Rt Ra dt st = Inl ZeroDivisionError"
  then show "Rt = 0"
    by (rule daisy_step_zero_division [OF assms])
next
  assume "daisy_loop n (daisy_step s0 a R0 Rt Ra dt) st = Inl ZeroDivisionError"
  then show "Rt = 0"
    by (rule daisy_loop_zero_division [OF assms])
next
  show "daisy_step s0 a R0 Rt Ra dt (0, 0, vx, vy, speed) =
           Inr (0 + vx * ramp_speed s0 a dt speed * dt, 0 + vy * ramp_speed s0 a dt speed * dt,
                vx, vy, ramp_speed s0 a dt speed)"
    by (rule daisy_step_origin [OF assms])
qed

theorem daisy_radial_division_safe_witness:
  "(0::real) < 1 \<and>
   daisy_step 1 1 1 0 0 1 (0, 0, 1, 0, 0) \<noteq> Inl ZeroDivisionError \<and>
   daisy_loop 2 (daisy_step 1 1 1 1 0 1) (0, 0, 1, 0, 0) \<noteq> Inl ZeroDivisionError \<and>
   daisy_step 1 1 1 0 0 1 (0, 0, 1, 0, 0) = Inr (1, 0, 1, 0, 1)"
proof -
  have h: "(0::real) < 1" by simp
  have "daisy_step 1 1 1 0 0 1 (0, 0, 1, 0, 0) =
          Inr (0 + 1 * ramp_speed 1 1 1 0 * 1, 0 + 0 * ramp_speed 1 1 1 0 * 1,
               1, 0, ramp_speed 1 1 1 0)"
    by (rule daisy_radial_division_safe [OF h, of 1 1 0 0 1 "(0, 0, 1, 0, 0)" 0 1 0 0,
          THEN conjunct2, THEN conjunct2])
  then have origin: "daisy_step 1 1 1 0 0 1 (0, 0, 1, 0, 0) = Inr (1, 0, 1, 0, 1)"
    by (simp add: ramp_speed_def)
  have "daisy_loop 2 (daisy_step 1 1 1 1 0 1) (0, 0, 1, 0, 0) = Inl ZeroDivisionError
          \<longrightarrow> (1::real) = 0"
    by (rule daisy_radial_division_safe [OF h, of 1 1 1 0 1 "(0, 0, 1, 0, 0)" 2 1 0 0,
          THEN conjunct2, THEN conjunct1])
  then have loop: "daisy_loop 2 (daisy_step 1 1 1 1 0 1) (0, 0, 1, 0, 0) \<noteq> Inl ZeroDivisionError"
    by simp
  show ?thesis
    using h origin loop by simp
qed

section \<open>Repeat control: who may request repeats\<close>










text \<open>
  \<^verbatim>\<open>Daisy\<close> sets \<^verbatim>\<open>repeatable=False\<close>, but its \<^verbatim>\<open>_clean_param\<close> does not call
  \<^verbatim>\<open>SkyPattern._clean_param\<close> as \<^verbatim>\<open>Pong._clean_param\<close> does, so the keys \<^verbatim>\<open>num_repeat\<close> and
  \<^verbatim>\<open>max_scan_duration\<close> are never looked at: a \<^verbatim>\<open>Daisy\<close> given \<^verbatim>\<open>num_repeat=2\<close> is built, with
  one pass of the pattern.
\<close>

lemma Daisy_accepts_num_repeat:
  "map_sum id (\<lambda>r. (daisy_num_repeat (fst r), length (snd r)))
     (Daisy_init \<lparr>dkw_velocity = Some 1, dkw_start_acc = Some 1, dkw_R0 = Some 1,
                  dkw_Rt = Some 1, dkw_Ra = Some 0, dkw_T = Some 1,
                  dkw_sample_interval = Some (1 / 2), dkw_y_offset = None,
                  dkw_max_scan_duration = None, dkw_num_repeat = Some 2\<rparr>)
   = Inr (Some 2, 2)"
proof -
  define q where "q = \<lparr>daisy_velocity = 1, daisy_start_acc = 1, daisy_R0 = 1, daisy_Rt = 1,
            daisy_Ra = 0, daisy_T = 1, daisy_sample_interval = 1 / 2, daisy_y_offset = 0,
            daisy_max_scan_duration = None, daisy_num_repeat = Some 2\<rparr>"
  have clean: "Daisy_clean_param \<lparr>dkw_velocity = Some 1, dkw_start_acc = Some 1, dkw_R0 = Some 1,
                  dkw_Rt = Some 1, dkw_Ra = Some 0, dkw_T = Some 1,
                  dkw_sample_interval = Some (1 / 2), dkw_y_offset = None,
                  dkw_max_scan_duration = None, dkw_num_repeat = Some 2\<rparr> = Inr q"
    by (simp add: Daisy_clean_param_def required_def get_default_def bind_err_def q_def)
  have "\<exists>rows. Daisy_generate_scan q = Inr rows \<and>
           length rows = nat \<lfloor>daisy_T q / daisy_sample_interval q\<rfloor> \<and>
           (\<forall>i<length rows. time_offset (rows ! i) = of_nat i * daisy_sample_interval q)"
    by (rule Daisy_generate_scan_exact) (simp_all add: q_def)
  then obtain rows where rows: "Daisy_generate_scan q = Inr rows" "length rows = 2"
    by (auto simp: q_def)
  show ?thesis
    using clean rows by (simp add: Daisy_init_def bind_err_def q_def)
qed





section \<open>SiderealClock: which start-time basis is used\<close>




text \<open>
  Named columns without an \<^verbatim>\<open>lst\<close> column: no basis is consulted, whether one is present
  or not, and the column is NaN throughout. The fallback of the \<^verbatim>\<open>except\<close> branch, which
  the csv and array paths take, is not reached.
\<close>

lemma columns_without_lst:
  "TelescopePattern_lst sid kw (FromTable Columns ts None) = Inr (map (\<lambda>t. None) ts)"
  by (simp add: TelescopePattern_lst_def)




section \<open>BoresightModuleTransform: a sample without a bracketed root\<close>

lemma solve_step_errors:
  "solve_step rs d th st ia = Inl e \<Longrightarrow> e = UnboundLocalError \<or> e = TypeError"
  by (auto simp: solve_step_def split: prod.splits option.splits alt0_var.splits)

lemma solve_step_fail:
  assumes "\<forall>g. rs (\<lambda>x. func d th x a1) g = None"
  shows "solve_step rs d th st (i, a1) = Inl UnboundLocalError
       \<or> solve_step rs d th st (i, a1) = Inl TypeError"
  using assms by (auto simp: solve_step_def split: prod.splits option.splits alt0_var.splits)

lemma solve_loop_fail:
  assumes "(i, a1) \<in> set samples" "\<forall>g. rs (\<lambda>x. func d th x a1) g = None"
  shows "solve_loop rs d th st samples = Inl UnboundLocalError
       \<or> solve_loop rs d th st samples = Inl TypeError"
  using assms(1)
proof (induction samples arbitrary: st)
  case Nil
  then show ?case by simp
next
  case (Cons s samples)
  show ?case
  proof (cases "solve_step rs d th st s")
    case (Inl e)
    then show ?thesis using solve_step_errors [OF Inl] by (auto simp: bind_err_def)
  next
    case (Inr st')
    have "s \<noteq> (i, a1)"
      using solve_step_fail [of rs d th a1 st i] assms(2) Inr by auto
    then have "(i, a1) \<in> set samples" using Cons.prems by auto
    from Cons.IH [OF this, of st'] show ?thesis using Inr by (simp add: bind_err_def)
  qed
qed

text \<open>
  C2 says that a sample whose solve finds no bracketed root is marked NaN and the rest of
  the series is still solved. The code does not do that: the handler rebinds the whole
  variable \<^verbatim>\<open>alt0\<close> to \<^verbatim>\<open>math.nan\<close> and the store \<^verbatim>\<open>alt0[i] = a0\<close> follows it, so for every
  series with a sample on which the root finder raises ValueError (whatever the guess) the
  whole call raises: UnboundLocalError when no earlier solve has bound \<^verbatim>\<open>a0\<close>, TypeError
  otherwise. No sample is returned.
\<close>

theorem to_boresight_failed_solve_aborts:
  assumes "(az, alt) \<in> set rows"
    and "\<forall>g. root_scalar (\<lambda>alt_0. func (radians dst) (radians theta) alt_0 (radians alt)) g = None"
  shows "transform_to_boresight root_scalar rows dst theta = Inl UnboundLocalError
       \<or> transform_to_boresight root_scalar rows dst theta = Inl TypeError"
proof -
  let ?alt1 = "map (\<lambda>r. radians (snd r)) rows"
  from assms(1) obtain i where i: "i < length rows" "rows ! i = (az, alt)"
    by (auto simp: in_set_conv_nth)
  have "(i, radians alt) \<in> set (zip [0..<length ?alt1] ?alt1)"
    using i by (auto simp: in_set_zip intro!: exI [of _ i])
  with assms(2) solve_loop_fail [of i "radians alt" "zip [0..<length ?alt1] ?alt1" root_scalar "radians dst" "radians theta"]
  have L: "\<And>st. solve_loop root_scalar (radians dst) (radians theta) st (zip [0..<length ?alt1] ?alt1) = Inl UnboundLocalError
       \<or> solve_loop root_scalar (radians dst) (radians theta) st (zip [0..<length ?alt1] ?alt1) = Inl TypeError"
    by blast
  obtain r rest where rows: "rows = r # rest" using assms(1) by (cases rows) auto
  show ?thesis
    using L [of "(Arr (replicate (length ?alt1) 0), radians (snd r), None)"]
    unfolding transform_to_boresight_def Let_def rows
    by (auto simp: bind_err_def)
qed

text \<open>
  A series on which this happens: one sample at altitude 89.9 degrees, for a module 1 degree
  from the boresight at position angle 0. The equation is negative at both ends of the
  bracket, and a bracketing root finder (scipy's \<^verbatim>\<open>brentq\<close> raises ValueError unless the
  function changes sign over the bracket) has no root to return.
\<close>

lemma bracket_both_negative:
  "func (radians 1) (radians 0) (- pi / 2) (radians (899 / 10)) < 0"
  "func (radians 1) (radians 0) (pi / 2) (radians (899 / 10)) < 0"
proof -
  have r1: "radians 1 = pi / 180" by (simp add: radians_def)
  have r2: "radians (899 / 10) = pi / 2 - pi / 1800" by (simp add: radians_def field_simps)
  have "sin (pi / 2 - pi / 1800) = sin (pi / 2) * cos (pi / 1800) - cos (pi / 2) * sin (pi / 1800)"
    by (rule sin_diff)
  also have "\<dots> = cos (pi / 1800)" by simp
  finally have s: "sin (radians (899 / 10)) = cos (pi / 1800)"
    unfolding r2 .
  have r0: "radians 0 = 0" by (simp add: radians_def)
  have pp: "0 < pi" by simp
  have lt: "cos (pi / 180) < cos (pi / 1800)"
    by (rule cos_monotone_0_pi) (use pp in auto)
  have c1: "0 < cos (pi / 180)" by (rule cos_gt_zero_pi) (use pp in auto)
  have c2: "0 < cos (pi / 1800)" by (rule cos_gt_zero_pi) (use pp in auto)
  show "func (radians 1) (radians 0) (- pi / 2) (radians (899 / 10)) < 0"
    using c1 c2 by (simp add: func_def s r1 r0)
  show "func (radians 1) (radians 0) (pi / 2) (radians (899 / 10)) < 0"
    using lt by (simp add: func_def s r1 r0)
qed

theorem to_boresight_failed_solve_aborts_witness:
  "(0, 899 / 10) \<in> set [(0 :: real, 899 / 10 :: real)]
   \<and> (\<forall>g. (\<lambda>f g. if 0 < f (- pi / 2) * f (pi / 2) then None else Some g)
             (\<lambda>alt_0. func (radians 1) (radians 0) alt_0 (radians (899 / 10))) g = None)
   \<and> (transform_to_boresight (\<lambda>f g. if 0 < f (- pi / 2) * f (pi / 2) then None else Some g)
         [(0, 899 / 10)] 1 0 = Inl UnboundLocalError
      \<or> transform_to_boresight (\<lambda>f g. if 0 < f (- pi / 2) * f (pi / 2) then None else Some g)
         [(0, 899 / 10)] 1 0 = Inl TypeError)"
proof -
  have h1: "(0, 899 / 10) \<in> set [(0 :: real, 899 / 10 :: real)]" by simp
  have h2: "\<forall>g. (\<lambda>f g. if 0 < f (- pi / 2) * f (pi / 2) then None else Some g)
             (\<lambda>alt_0. func (radians 1) (radians 0) alt_0 (radians (899 / 10))) g = None"
    using bracket_both_negative by (simp add: mult_neg_neg)
  show ?thesis
    by (rule conjI [OF h1 conjI [OF h2 to_boresight_failed_solve_aborts
      [of 0 "899 / 10" "[(0, 899 / 10)]"
          "\<lambda>f g. if 0 < f (- pi / 2) * f (pi / 2) then None else Some g" 1 0, OF h1 h2]]])
qed


section \<open>BoresightModuleTransform: a module at the boresight\<close>

text \<open>
  For \<open>dist = 0\<close> and \<open>theta = 0\<close> the equation of the inverse transform is
  \<open>sin alt_0 - sin alt_1 = 0\<close> and the forward transform reduces to
  \<open>alt1 = arcsin (sin alt0)\<close>, \<open>az1 = arctan2 (sin az0) (cos az0)\<close>.
\<close>

lemma degrees_radians: "degrees (radians x) = x"
  by (simp add: degrees_def radians_def)

lemma radians_0: "radians 0 = 0"
  by (simp add: radians_def)

lemma radians_range:
  assumes "- 90 < x" "x < 90"
  shows "- (pi / 2) < radians x" "radians x < pi / 2"
proof -
  have "0 < pi" by simp
  have "pi * (- 90) < pi * x"
    using assms(1) \<open>0 < pi\<close> by (rule mult_strict_left_mono)
  then show "- (pi / 2) < radians x"
    by (simp add: radians_def field_simps)
  have "pi * x < pi * 90"
    using assms(2) \<open>0 < pi\<close> by (rule mult_strict_left_mono)
  then show "radians x < pi / 2"
    by (simp add: radians_def field_simps)
qed

lemma sqrt_one_plus_tan_sq:
  assumes "cos z \<noteq> 0"
  shows "sqrt (1 + (sin z / cos z)\<^sup>2) = 1 / \<bar>cos z\<bar>"
proof -
  have "1 + (sin z / cos z)\<^sup>2 = ((cos z)\<^sup>2 + (sin z)\<^sup>2) / (cos z)\<^sup>2"
    using assms by (simp add: field_simps power2_eq_square)
  also have "\<dots> = (1 / \<bar>cos z\<bar>)\<^sup>2"
    by (simp add: power2_eq_square field_simps)
  finally show ?thesis
    by (simp add: real_sqrt_abs del: power_divide)
qed

lemma arctan2_sin_cos: "sin (arctan2 (sin z) (cos z)) = sin z \<and> cos (arctan2 (sin z) (cos z)) = cos z"
proof -
  consider (pos) "0 < cos z" | (neg) "cos z < 0" | (zero) "cos z = 0" by linarith
  then show ?thesis
  proof cases
    case pos
    then have nz: "cos z \<noteq> 0" by simp
    show ?thesis
      using pos by (simp add: arctan2_def sin_arctan cos_arctan sqrt_one_plus_tan_sq [OF nz])
  next
    case neg
    then have nz: "cos z \<noteq> 0" by simp
    show ?thesis
      using neg by (simp add: arctan2_def sin_arctan cos_arctan sqrt_one_plus_tan_sq [OF nz]
          sin_add cos_add sin_diff cos_diff)
  next
    case zero
    have "(sin z)\<^sup>2 + (cos z)\<^sup>2 = 1" by simp
    then have "(sin z)\<^sup>2 = 1" using zero by simp
    then have "sin z = 1 \<or> sin z = - 1" by (simp add: power2_eq_1_iff)
    then show ?thesis
      using zero by (auto simp: arctan2_def)
  qed
qed

lemma arctan2_angle: "\<exists>k::int. arctan2 (sin z) (cos z) = z + 2 * pi * of_int k"
  using arctan2_sin_cos [of z] sin_cos_eq_iff [of "arctan2 (sin z) (cos z)" z] by simp

lemma degrees_arctan2:
  "\<exists>k::int. degrees (arctan2 (sin (radians a)) (cos (radians a))) = a + 360 * of_int k"
proof -
  obtain k :: int where "arctan2 (sin (radians a)) (cos (radians a)) = radians a + 2 * pi * of_int k"
    using arctan2_angle ..
  then have "degrees (arctan2 (sin (radians a)) (cos (radians a))) = a + 360 * of_int k"
    by (simp add: degrees_def radians_def field_simps)
  then show ?thesis ..
qed

lemma norm_angle_congruent:
  assumes "list_all2 (\<lambda>x y. \<exists>k::int. y = x + 360 * of_int k) xs ys"
  shows "norm_angle ys = norm_angle xs"
proof (cases xs)
  case Nil
  then show ?thesis using assms by simp
next
  case (Cons x xs')
  then obtain y ys' where ys: "ys = y # ys'" and xy: "\<exists>k::int. y = x + 360 * of_int k"
    using assms by (auto simp: list_all2_Cons1)
  have low: "pymod y 360 = pymod x 360"
    using xy pymod_360_shift by auto
  have each: "\<And>a b l. \<exists>k::int. b = a + 360 * of_int k \<Longrightarrow> pymod (b - l) 360 + l = pymod (a - l) 360 + l"
  proof -
    fix a b l :: real
    assume "\<exists>k::int. b = a + 360 * of_int k"
    then obtain k :: int where "b = a + 360 * of_int k" ..
    then have "b - l = (a - l) + 360 * of_int k" by simp
    then show "pymod (b - l) 360 + l = pymod (a - l) 360 + l"
      by (simp only: pymod_360_shift)
  qed
  have "map (\<lambda>a. pymod (a - (pymod x 360 - 180)) 360 + (pymod x 360 - 180)) ys
      = map (\<lambda>a. pymod (a - (pymod x 360 - 180)) 360 + (pymod x 360 - 180)) xs"
    using assms
  proof (induction rule: list_all2_induct)
    case Nil
    then show ?case by simp
  next
    case (Cons a as b bs)
    then show ?case using each [OF Cons.hyps(1)] by simp
  qed
  then show ?thesis
    unfolding norm_angle_def Cons ys by (simp add: low Let_def Cons ys)
qed

lemma map_err_ok:
  assumes "\<And>x. x \<in> set xs \<Longrightarrow> f x = Inr (g x)"
  shows "map_err f xs = Inr (map g xs)"
  using assms by (induction xs) (simp_all add: bind_err_def)

lemma from_boresight_sample_zero:
  assumes "- (pi / 2) < a" "a < pi / 2"
  shows "from_boresight_sample 0 0 (z, a) = Inr (arctan2 (sin z) (cos z), a)"
proof -
  have c: "0 < cos a" using assms by (rule cos_gt_zero_pi)
  have as: "arcsin (sin a) = a" using assms by (simp add: arcsin_sin)
  have b: "\<not> (sin a < - 1 \<or> 1 < sin a)"
    using sin_ge_minus_one [of a] sin_le_one [of a] by linarith
  show ?thesis
    unfolding from_boresight_sample_def using c b by (simp add: as Let_def)
qed


lemma from_boresight_zero:
  assumes "\<forall>r\<in>set rows. - 90 < snd r \<and> snd r < 90"
  shows "transform_from_boresight rows 0 0 =
           bind_err (norm_angle (map fst rows)) (\<lambda>az. Inr (az, map (\<lambda>r. pymod (snd r) 360) rows))"
proof -
  let ?g = "\<lambda>p. (arctan2 (sin (fst p)) (cos (fst p)), snd p)"
  let ?rad = "map (\<lambda>r. (radians (fst r), radians (snd r))) rows"
  have m: "map_err (from_boresight_sample (radians 0) (radians 0)) ?rad = Inr (map ?g ?rad)"
  proof (rule map_err_ok)
    fix p assume "p \<in> set ?rad"
    then obtain r where r: "r \<in> set rows" "p = (radians (fst r), radians (snd r))" by auto
    then have "- 90 < snd r" "snd r < 90" using assms by auto
    from radians_range [OF this] show "from_boresight_sample (radians 0) (radians 0) p = Inr (?g p)"
      unfolding r(2) radians_0 by (simp add: from_boresight_sample_zero)
  qed
  have az: "norm_angle (map (\<lambda>r. degrees (fst r)) (map ?g ?rad)) = norm_angle (map fst rows)"
  proof (rule norm_angle_congruent)
    show "list_all2 (\<lambda>x y. \<exists>k::int. y = x + 360 * of_int k) (map fst rows)
            (map (\<lambda>r. degrees (fst r)) (map ?g ?rad))"
    proof (rule list_all2_all_nthI)
      show "length (map fst rows) = length (map (\<lambda>r. degrees (fst r)) (map ?g ?rad))"
        by simp
    next
      fix n assume "n < length (map fst rows)"
      then have n: "n < length rows" by simp
      have "map (\<lambda>r. degrees (fst r)) (map ?g ?rad) ! n
              = degrees (arctan2 (sin (radians (fst (rows ! n)))) (cos (radians (fst (rows ! n)))))"
        using n by simp
      moreover have "map fst rows ! n = fst (rows ! n)"
        using n by simp
      ultimately show "\<exists>k::int. map (\<lambda>r. degrees (fst r)) (map ?g ?rad) ! n
                         = map fst rows ! n + 360 * of_int k"
        using degrees_arctan2 [of "fst (rows ! n)"] by (simp only:)
    qed
  qed
  have alt: "map (\<lambda>r. pymod (degrees (snd r)) 360) (map ?g ?rad) = map (\<lambda>r. pymod (snd r) 360) rows"
    by (simp add: degrees_radians)
  show ?thesis
    unfolding transform_from_boresight_def m
    by (simp only: bind_err_def sum.case az alt)
qed


lemma solve_step_ok:
  assumes "rs (\<lambda>alt_0. func d th alt_0 a1) g = Some x"
  shows "solve_step rs d th (Arr xs, g, a0) (i, a1) = Inr (Arr (xs[i := x]), x, Some x)"
  using assms by (simp add: solve_step_def)

lemma solve_loop_values:
  assumes "\<forall>a\<in>set zs. \<forall>g. \<exists>x. rs (\<lambda>alt_0. func d th alt_0 a) g = Some x \<and> P a x"
    and "length xs = k + length zs"
  shows "\<exists>ys st. solve_loop rs d th (Arr xs, g, a0) (zip [k..<k + length zs] zs) = Inr st \<and>
           fst st = Arr (take k xs @ ys) \<and> list_all2 P zs ys"
  using assms
proof (induction zs arbitrary: k xs g a0)
  case Nil
  then show ?case by simp
next
  case (Cons z zs)
  have "\<exists>x. rs (\<lambda>alt_0. func d th alt_0 z) g = Some x \<and> P z x"
    using Cons.prems(1) by simp
  then obtain x where x: "rs (\<lambda>alt_0. func d th alt_0 z) g = Some x" "P z x"
    by (elim exE conjE) (rule that)
  have up: "[k..<k + length (z # zs)] = k # [Suc k..<Suc k + length zs]"
    by (subst upt_rec) simp
  have st: "solve_step rs d th (Arr xs, g, a0) (k, z) = Inr (Arr (xs[k := x]), x, Some x)"
    using x(1) by (simp add: solve_step_def)
  have len: "length (xs[k := x]) = Suc k + length zs" using Cons.prems(2) by simp
  have rest: "\<forall>a\<in>set zs. \<forall>g. \<exists>x. rs (\<lambda>alt_0. func d th alt_0 a) g = Some x \<and> P a x"
    using Cons.prems(1) by simp
  from Cons.IH [OF rest len, of x "Some x"]
  obtain ys st' where ih:
      "solve_loop rs d th (Arr (xs[k := x]), x, Some x) (zip [Suc k..<Suc k + length zs] zs) = Inr st'"
      "fst st' = Arr (take (Suc k) (xs[k := x]) @ ys)" "list_all2 P zs ys"
    by (elim exE conjE) (rule that)
  have tk: "take (Suc k) (xs[k := x]) @ ys = take k xs @ x # ys"
    using Cons.prems(2) by (simp add: take_Suc_conv_app_nth)
  have "solve_loop rs d th (Arr xs, g, a0) (zip [k..<k + length (z # zs)] (z # zs)) = Inr st'"
    unfolding up by (simp only: zip_Cons_Cons solve_loop.simps st bind_err_def sum.case ih(1))
  moreover have "fst st' = Arr (take k xs @ x # ys)"
    using ih(2) tk by simp
  moreover have "list_all2 P (z # zs) (x # ys)"
    using x(2) ih(3) by simp
  ultimately show ?case
    by (intro exI [of _ "x # ys"] exI [of _ st'] conjI)
qed

lemma diff_az_zero:
  assumes "- (pi / 2) < a0" "a0 < pi / 2" "- (pi / 2) < a1" "a1 < pi / 2"
  shows "diff_az 0 0 a0 a1 = Inr 0"
proof -
  have c0: "0 < cos a0" using assms(1,2) by (rule cos_gt_zero_pi)
  have c1: "0 < cos a1" using assms(3,4) by (rule cos_gt_zero_pi)
  have c: "0 < cos a0 * cos a1" using c0 c1 by simp
  have "cos (a0 - a1) \<le> 1" by simp
  then have "cos a0 * cos a1 \<le> 1 - sin a0 * sin a1"
    by (simp add: cos_diff)
  then have q: "1 \<le> (1 - sin a0 * sin a1) / (cos a0 * cos a1)"
    using c by (simp add: le_divide_eq)
  have clip: "np_clip1 ((1 - sin a0 * sin a1) / (cos a0 * cos a1)) = 1"
    using q unfolding np_clip1_def by auto
  have nz: "cos a0 * cos a1 \<noteq> 0" using c0 c1 by simp
  have m: "\<not> (0 > - a0 + pi / 2 \<and> 0 < - a0 + 3 * pi / 2)" using assms(2) by simp
  show ?thesis
    unfolding diff_az_def Let_def using nz m by (simp add: clip)
qed

lemma sub_zero_column:
  "length az = length ps \<Longrightarrow> map (\<lambda>(a, d). a - d) (zip az (map (\<lambda>p. 0 :: real) ps)) = az"
  by (induction az ps rule: list_induct2) simp_all

lemma to_boresight_zero:
  assumes ne: "rows \<noteq> []"
    and rng: "\<forall>r\<in>set rows. - 90 < snd r \<and> snd r < 90"
    and sol: "\<forall>r\<in>set rows. \<forall>g. \<exists>x. rs (\<lambda>alt_0. func 0 0 alt_0 (radians (snd r))) g = Some x
                \<and> - (pi / 2) < x \<and> x < pi / 2 \<and> P (radians (snd r)) x"
  shows "\<exists>ys. list_all2 P (map (\<lambda>r. radians (snd r)) rows) ys \<and>
           transform_to_boresight rs rows 0 0 =
             bind_err (norm_angle (map fst rows))
               (\<lambda>az. Inr (az, map (\<lambda>x. pymod (degrees x) 360) ys))"
proof -
  let ?alt1 = "map (\<lambda>r. radians (snd r)) rows"
  let ?az1 = "map (\<lambda>r. radians (fst r)) rows"
  let ?Q = "\<lambda>a x. - (pi / 2) < x \<and> x < pi / 2 \<and> P a x"
  obtain r rest where rows: "rows = r # rest" using ne by (cases rows) auto
  have alt1: "?alt1 = radians (snd r) # map (\<lambda>r. radians (snd r)) rest"
    by (simp add: rows)
  have inr: "\<forall>a\<in>set ?alt1. - (pi / 2) < a \<and> a < pi / 2"
    using rng radians_range by auto
  have sol': "\<forall>a\<in>set ?alt1. \<forall>g. \<exists>x. rs (\<lambda>alt_0. func 0 0 alt_0 a) g = Some x \<and> ?Q a x"
    using sol by simp
  have len: "length (replicate (length ?alt1) (0::real)) = 0 + length ?alt1" by simp
  let ?loop = "solve_loop rs 0 0 (Arr (replicate (length ?alt1) 0), radians (snd r), None)
                 (zip [0..<length ?alt1] ?alt1)"
  from solve_loop_values [of ?alt1 rs 0 0 ?Q, OF sol' len, of "radians (snd r)" None]
  obtain ys st where loop: "?loop = Inr st" "fst st = Arr ys" "list_all2 ?Q ?alt1 ys"
    by auto
  have lys: "length ys = length ?alt1"
    using list_all2_lengthD [OF loop(3)] by simp
  have ysr: "\<forall>y\<in>set ys. - (pi / 2) < y \<and> y < pi / 2"
    using loop(3) by (auto simp: list_all2_conv_all_nth in_set_conv_nth)
  have p: "list_all2 P ?alt1 ys"
    using loop(3) by (rule list_all2_mono) simp
  have d: "map_err (\<lambda>(a0, a1). diff_az 0 0 a0 a1) (zip ys ?alt1)
             = Inr (map (\<lambda>p. 0) (zip ys ?alt1))"
  proof (rule map_err_ok)
    fix p assume pin: "p \<in> set (zip ys ?alt1)"
    obtain y a where ya: "p = (y, a)" by (cases p)
    have "y \<in> set ys" "a \<in> set ?alt1"
      using pin unfolding ya by (rule set_zip_leftD, rule set_zip_rightD)
    then have "- (pi / 2) < y" "y < pi / 2" "- (pi / 2) < a" "a < pi / 2"
      using ysr inr by auto
    then show "(case p of (a0, a1) \<Rightarrow> diff_az 0 0 a0 a1) = Inr 0"
      unfolding ya by (simp add: diff_az_zero)
  qed
  have sub: "map (\<lambda>(a, d). a - d) (zip ?az1 (map (\<lambda>p. 0) (zip ys ?alt1))) = ?az1"
    by (rule sub_zero_column) (simp add: lys)
  have az: "map degrees ?az1 = map fst rows"
    by (simp add: degrees_radians)
  have "transform_to_boresight rs rows 0 0 =
          bind_err ?loop (\<lambda>st.
               case fst st of
                 FloatNaN \<Rightarrow> Inl NonFinite
               | Arr alt0 \<Rightarrow>
                   bind_err (map_err (\<lambda>(a0, a1). diff_az 0 0 a0 a1) (zip alt0 ?alt1))
                     (\<lambda>diff_az0.
                   bind_err (norm_angle (map degrees (map (\<lambda>(a, d). a - d) (zip ?az1 diff_az0))))
                     (\<lambda>az0.
                      Inr (az0, map (\<lambda>a. pymod (degrees a) 360) alt0))))"
    unfolding transform_to_boresight_def Let_def radians_0
    by (simp only: alt1 list.case)
  also have "\<dots> = bind_err (norm_angle (map fst rows))
                      (\<lambda>az. Inr (az, map (\<lambda>x. pymod (degrees x) 360) ys))"
    unfolding loop(1)
    by (simp only: bind_err_def sum.case loop(2) alt0_var.case d sub az)
  finally show ?thesis
    using p by (intro exI [of _ ys] conjI)
qed

lemma norm_angle_in_window:
  assumes "az = a # rest"
    and "\<forall>x\<in>set az. pymod a 360 - 180 \<le> x \<and> x < pymod a 360 + 180"
  shows "norm_angle az = Inr az"
proof -
  have "map (\<lambda>x. pymod (x - (pymod a 360 - 180)) 360 + (pymod a 360 - 180)) az = map (\<lambda>x. x) az"
  proof (rule map_cong [OF refl])
    fix x assume "x \<in> set az"
    then have "0 \<le> x - (pymod a 360 - 180)" "x - (pymod a 360 - 180) < 360"
      using assms(2) by auto
    then have "pymod (x - (pymod a 360 - 180)) 360 = x - (pymod a 360 - 180)"
      by (rule pymod_360_id)
    then show "pymod (x - (pymod a 360 - 180)) 360 + (pymod a 360 - 180) = x" by simp
  qed
  then show ?thesis
    unfolding norm_angle_def assms(1) by (simp add: Let_def assms(1))
qed



lemma degrees_diff_bound:
  assumes "\<bar>x - radians a\<bar> \<le> t"
  shows "\<bar>degrees x - a\<bar> \<le> degrees t"
proof -
  have "degrees x - a = (x - radians a) * (180 / pi)"
    by (simp add: degrees_def radians_def field_simps)
  then have "\<bar>degrees x - a\<bar> = \<bar>x - radians a\<bar> * \<bar>180 / pi\<bar>"
    by (simp only: abs_mult)
  also have "\<bar>180 / pi\<bar> = 180 / pi" by simp
  finally have "\<bar>degrees x - a\<bar> = \<bar>x - radians a\<bar> * (180 / pi)" .
  also have "\<dots> \<le> t * (180 / pi)"
    using assms by (intro mult_right_mono) simp_all
  finally show ?thesis by (simp add: degrees_def)
qed

text \<open>
  C7, as stated, fails: both transforms return the altitude modulo 360 and the azimuth
  through \<^verbatim>\<open>_norm_angle\<close>. A boresight altitude of -10 degrees comes back as 350.
\<close>

theorem zero_offset_altitude_counterexample:
  "transform_from_boresight [(0, - 10)] 0 0 = Inr ([0], [350]) \<and> (350 :: real) \<noteq> - 10"
proof -
  have rng: "\<forall>r\<in>set [(0 :: real, - 10 :: real)]. - 90 < snd r \<and> snd r < 90" by simp
  have n: "norm_angle (map fst [(0 :: real, - 10 :: real)]) = Inr [0]"
    by (rule trans [OF _ norm_angle_in_window [of "[0]" 0 "[]"]])
       (simp_all add: pymod_360_id)
  have "pymod (- 10) 360 = - 10 + 360 * of_int 1"
    unfolding pymod_def by (simp add: floor_eq_iff)
  then have p: "pymod (- 10) 360 = 350" by simp
  show ?thesis
    unfolding from_boresight_zero [OF rng] n by (simp add: bind_err_def p)
qed

text \<open>
  The inverse transform returns as altitude what the root finder returns. The source
  calls it with \<^verbatim>\<open>xtol=10**(-6)\<close>, and a root finder that is off by \<open>10\<^sup>-\<^sup>7\<close> radians, within
  that tolerance, gives back an altitude that is not the input altitude.
\<close>

lemma inverse_returns_solver_root:
  "transform_to_boresight (\<lambda>f g. Some (arcsin (- f 0) - 1 / 10 ^ 7)) [(10, 20)] 0 0
     = Inr ([10], [20 - degrees (1 / 10 ^ 7)]) \<and>
   20 - degrees (1 / 10 ^ 7) \<noteq> 20"
proof -
  let ?S = "\<lambda>(f :: real \<Rightarrow> real) (g :: real). Some (arcsin (- f 0) - 1 / 10 ^ 7)"
  let ?P = "\<lambda>(a :: real) (x :: real). x = a - 1 / 10 ^ 7"
  have h1: "[(10 :: real, 20 :: real)] \<noteq> []" by simp
  have h2: "\<forall>r\<in>set [(10 :: real, 20 :: real)]. - 90 < snd r \<and> snd r < 90" by simp
  have a: "- (pi / 2) < radians 20" "radians 20 < pi / 2"
    by (rule radians_range; simp)+
  have as: "arcsin (sin (radians 20)) = radians 20"
    using a by (simp add: arcsin_sin)
  have lo: "- (pi / 2) < radians 20 - 1 / 10 ^ 7"
  proof -
    have "0 < pi / 9" by simp
    moreover have "(1 :: real) / 10 ^ 7 < pi / 2" using pi_ge_two by simp
    ultimately show ?thesis by (simp add: radians_def)
  qed
  have hi: "radians 20 - 1 / 10 ^ 7 < pi / 2" using a(2) by simp
  have h3: "\<forall>r\<in>set [(10 :: real, 20 :: real)]. \<forall>g. \<exists>x.
              ?S (\<lambda>alt_0. func 0 0 alt_0 (radians (snd r))) g = Some x
                \<and> - (pi / 2) < x \<and> x < pi / 2 \<and> ?P (radians (snd r)) x"
    using lo hi by (simp add: func_def as)
  from to_boresight_zero [of "[(10, 20)]" ?S ?P, OF h1 h2 h3]
  obtain ys where ys: "list_all2 ?P (map (\<lambda>r. radians (snd r)) [(10 :: real, 20 :: real)]) ys"
      "transform_to_boresight ?S [(10, 20)] 0 0 =
             bind_err (norm_angle (map fst [(10 :: real, 20 :: real)]))
               (\<lambda>az. Inr (az, map (\<lambda>x. pymod (degrees x) 360) ys))"
    by (elim exE conjE) (rule that)
  have yv: "ys = [radians 20 - 1 / 10 ^ 7]"
    using ys(1) by (auto simp: list_all2_Cons1)
  have p10: "pymod 10 360 = 10" by (rule pymod_360_id) simp_all
  have n: "norm_angle (map fst [(10 :: real, 20 :: real)]) = Inr [10]"
    by (rule trans [OF _ norm_angle_in_window [of "[10]" 10 "[]"]])
       (simp_all add: p10)
  have dpos: "0 < degrees (1 / 10 ^ 7)" by (simp add: degrees_def)
  have dsmall: "degrees (1 / 10 ^ 7) < 1"
  proof -
    have "(180 :: real) / 10 ^ 7 < 2" by simp
    also have "\<dots> \<le> pi" by (rule pi_ge_two)
    finally show ?thesis by (simp add: degrees_def field_simps)
  qed
  have dg: "degrees (radians 20 - 1 / 10 ^ 7) = 20 - degrees (1 / 10 ^ 7)"
    by (simp add: degrees_def radians_def field_simps)
  have pm: "pymod (20 - degrees (1 / 10 ^ 7)) 360 = 20 - degrees (1 / 10 ^ 7)"
    by (rule pymod_360_id) (use dpos dsmall in simp_all)
  have pm': "pymod (degrees (radians 20 - 1 / 10 ^ 7)) 360 = 20 - degrees (1 / 10 ^ 7)"
    unfolding dg by (rule pm)
  have "transform_to_boresight ?S [(10, 20)] 0 0 = Inr ([10], [20 - degrees (1 / 10 ^ 7)])"
    unfolding ys(2) n yv by (simp only: bind_err_def sum.case list.map pm')
  moreover have "20 - degrees (1 / 10 ^ 7) \<noteq> 20" using dpos by simp
  ultimately show ?thesis by (rule conjI)
qed

text \<open>
  C7, amended: for \<open>dist = 0\<close> and \<open>theta = 0\<close> and a non-empty series whose altitudes lie
  strictly between -90 and 90 degrees, the forward transform returns the altitudes modulo
  360 and the azimuths normalised by \<^verbatim>\<open>_norm_angle\<close>. The inverse transform, when the root
  finder returns for every sample a value strictly inside the bracket and within \<open>xtol\<close> of
  a root of the equation in the bracket, returns the same azimuths and, as altitudes,
  the root finder's values modulo 360, each within \<open>xtol\<close> (in degrees) of the input
  altitude: not the input altitude itself. For the forward transform the altitude is
  returned unchanged when it is not negative, and for both the azimuth is returned unchanged
  when the series already lies in the window of 360 degrees around its first value modulo
  360. (At exactly 90 or -90 degrees the cosine of the altitude is 0 in exact arithmetic
  and the model yields no value; this statement does not cover those altitudes.)
\<close>

theorem zero_offset_transforms:
  assumes "rows \<noteq> []"
    and "\<forall>r\<in>set rows. - 90 < snd r \<and> snd r < 90"
    and "\<forall>r\<in>set rows. \<forall>g. \<exists>x x0.
           root_scalar (\<lambda>alt_0. func 0 0 alt_0 (radians (snd r))) g = Some x \<and>
           - (pi / 2) < x \<and> x < pi / 2 \<and>
           func 0 0 x0 (radians (snd r)) = 0 \<and> - (pi / 2) \<le> x0 \<and> x0 \<le> pi / 2 \<and>
           \<bar>x - x0\<bar> \<le> xtol"
  shows "\<exists>az alt0. norm_angle (map fst rows) = Inr az \<and>
           transform_from_boresight rows 0 0 = Inr (az, map (\<lambda>r. pymod (snd r) 360) rows) \<and>
           transform_to_boresight root_scalar rows 0 0 = Inr (az, map (\<lambda>a. pymod a 360) alt0) \<and>
           length alt0 = length rows \<and>
           (\<forall>i<length rows. \<bar>alt0 ! i - snd (rows ! i)\<bar> \<le> degrees xtol) \<and>
           ((\<forall>r\<in>set rows. 0 \<le> snd r) \<longrightarrow> map (\<lambda>r. pymod (snd r) 360) rows = map snd rows) \<and>
           ((\<forall>r\<in>set rows. pymod (fst (hd rows)) 360 - 180 \<le> fst r \<and>
                           fst r < pymod (fst (hd rows)) 360 + 180) \<longrightarrow> az = map fst rows)"
proof -
  let ?P = "\<lambda>(a :: real) (x :: real). \<bar>x - a\<bar> \<le> xtol"
  obtain r rest where rows: "rows = r # rest" using assms(1) by (cases rows) auto
  let ?az = "map (\<lambda>a. pymod (a - (pymod (fst r) 360 - 180)) 360 + (pymod (fst r) 360 - 180))
               (map fst rows)"
  have n: "norm_angle (map fst rows) = Inr ?az"
    unfolding norm_angle_def by (simp add: rows Let_def)
  have f: "transform_from_boresight rows 0 0 = Inr (?az, map (\<lambda>r. pymod (snd r) 360) rows)"
    unfolding from_boresight_zero [OF assms(2)] n by (simp add: bind_err_def)
  have sol: "\<forall>r\<in>set rows. \<forall>g. \<exists>x. root_scalar (\<lambda>alt_0. func 0 0 alt_0 (radians (snd r))) g = Some x
                \<and> - (pi / 2) < x \<and> x < pi / 2 \<and> ?P (radians (snd r)) x"
  proof (intro ballI allI)
    fix q g assume q: "q \<in> set rows"
    then have "- 90 < snd q" "snd q < 90" using assms(2) by auto
    from radians_range [OF this]
    have a: "- (pi / 2) \<le> radians (snd q)" "radians (snd q) \<le> pi / 2" by simp_all
    from assms(3) q obtain x x0 where x:
        "root_scalar (\<lambda>alt_0. func 0 0 alt_0 (radians (snd q))) g = Some x"
        "- (pi / 2) < x" "x < pi / 2"
        "func 0 0 x0 (radians (snd q)) = 0" "- (pi / 2) \<le> x0" "x0 \<le> pi / 2"
        "\<bar>x - x0\<bar> \<le> xtol"
      by (meson)
    from x(4) have eq: "sin x0 = sin (radians (snd q))" by (simp add: func_def)
    have "x0 = radians (snd q)"
      by (rule sin_inj_pi [OF x(5) x(6) a eq])
    then show "\<exists>x. root_scalar (\<lambda>alt_0. func 0 0 alt_0 (radians (snd q))) g = Some x
                \<and> - (pi / 2) < x \<and> x < pi / 2 \<and> \<bar>x - radians (snd q)\<bar> \<le> xtol"
      using x(1,2,3,7) by (intro exI [of _ x]) simp
  qed
  from to_boresight_zero [of rows root_scalar ?P, OF assms(1) assms(2) sol]
  obtain ys where ys: "list_all2 ?P (map (\<lambda>r. radians (snd r)) rows) ys"
      "transform_to_boresight root_scalar rows 0 0 =
             bind_err (norm_angle (map fst rows))
               (\<lambda>az. Inr (az, map (\<lambda>x. pymod (degrees x) 360) ys))"
    by (elim exE conjE) (rule that)
  have t: "transform_to_boresight root_scalar rows 0 0
             = Inr (?az, map (\<lambda>a. pymod a 360) (map degrees ys))"
    unfolding ys(2) n by (simp add: bind_err_def comp_def)
  have len: "length (map degrees ys) = length rows"
    using list_all2_lengthD [OF ys(1)] by simp
  have close: "\<forall>i<length rows. \<bar>map degrees ys ! i - snd (rows ! i)\<bar> \<le> degrees xtol"
  proof (intro allI impI)
    fix i assume i: "i < length rows"
    then have "\<bar>ys ! i - radians (snd (rows ! i))\<bar> \<le> xtol"
      using ys(1) by (simp add: list_all2_conv_all_nth)
    then have "\<bar>degrees (ys ! i) - snd (rows ! i)\<bar> \<le> degrees xtol"
      by (rule degrees_diff_bound)
    then show "\<bar>map degrees ys ! i - snd (rows ! i)\<bar> \<le> degrees xtol"
      using i len by simp
  qed
  have alt: "(\<forall>r\<in>set rows. 0 \<le> snd r) \<longrightarrow> map (\<lambda>r. pymod (snd r) 360) rows = map snd rows"
  proof
    assume nn: "\<forall>r\<in>set rows. 0 \<le> snd r"
    show "map (\<lambda>r. pymod (snd r) 360) rows = map snd rows"
    proof (rule map_cong [OF refl])
      fix x assume "x \<in> set rows"
      then have "0 \<le> snd x" "snd x < 360" using nn assms(2) by fastforce+
      then show "pymod (snd x) 360 = snd x" by (rule pymod_360_id)
    qed
  qed
  have az: "(\<forall>r\<in>set rows. pymod (fst (hd rows)) 360 - 180 \<le> fst r \<and>
                           fst r < pymod (fst (hd rows)) 360 + 180) \<longrightarrow> ?az = map fst rows"
  proof
    assume w: "\<forall>r\<in>set rows. pymod (fst (hd rows)) 360 - 180 \<le> fst r \<and>
                           fst r < pymod (fst (hd rows)) 360 + 180"
    have "norm_angle (map fst rows) = Inr (map fst rows)"
    proof (rule norm_angle_in_window)
      show "map fst rows = fst r # map fst rest" by (simp add: rows)
      show "\<forall>x\<in>set (map fst rows). pymod (fst r) 360 - 180 \<le> x \<and> x < pymod (fst r) 360 + 180"
        using w by (simp add: rows)
    qed
    then show "?az = map fst rows" unfolding n by simp
  qed
  show ?thesis
    by (rule exI [of _ ?az], rule exI [of _ "map degrees ys"])
       (rule conjI [OF n conjI [OF f conjI [OF t conjI [OF len conjI [OF close conjI [OF alt az]]]]]])
qed

theorem zero_offset_transforms_witness:
  "transform_from_boresight [(10, 20)] 0 0 = Inr ([10], [20]) \<and>
   (\<exists>alt0. transform_to_boresight (\<lambda>f g. Some (arcsin (- f 0) - 1 / 10 ^ 7)) [(10, 20)] 0 0
              = Inr ([10], map (\<lambda>a. pymod a 360) alt0) \<and>
            length alt0 = 1 \<and> \<bar>alt0 ! 0 - 20\<bar> \<le> degrees (1 / 10 ^ 6))"
proof -
  let ?S = "\<lambda>(f :: real \<Rightarrow> real) (g :: real). Some (arcsin (- f 0) - 1 / 10 ^ 7)"
  have h1: "[(10 :: real, 20 :: real)] \<noteq> []" by simp
  have h2: "\<forall>r\<in>set [(10 :: real, 20 :: real)]. - 90 < snd r \<and> snd r < 90" by simp
  have a: "- (pi / 2) < radians 20" "radians 20 < pi / 2"
    by (rule radians_range; simp)+
  have as: "arcsin (sin (radians 20)) = radians 20"
    using a by (simp add: arcsin_sin)
  have lo: "- (pi / 2) < radians 20 - 1 / 10 ^ 7"
  proof -
    have "0 < pi / 9" by simp
    moreover have "(1 :: real) / 10 ^ 7 < pi / 2" using pi_ge_two by simp
    ultimately show ?thesis by (simp add: radians_def)
  qed
  have hi: "radians 20 - 1 / 10 ^ 7 < pi / 2" using a(2) by simp
  have f0: "func 0 0 (radians 20) (radians 20) = 0" by (simp add: func_def)
  have h3: "\<forall>r\<in>set [(10 :: real, 20 :: real)]. \<forall>g. \<exists>x x0.
           ?S (\<lambda>alt_0. func 0 0 alt_0 (radians (snd r))) g = Some x \<and>
           - (pi / 2) < x \<and> x < pi / 2 \<and>
           func 0 0 x0 (radians (snd r)) = 0 \<and> - (pi / 2) \<le> x0 \<and> x0 \<le> pi / 2 \<and>
           \<bar>x - x0\<bar> \<le> 1 / 10 ^ 6"
  proof (intro ballI allI)
    fix r :: "real \<times> real" and g :: real
    assume "r \<in> set [(10 :: real, 20 :: real)]"
    then have r: "snd r = 20" by simp
    have "?S (\<lambda>alt_0. func 0 0 alt_0 (radians 20)) g = Some (radians 20 - 1 / 10 ^ 7)"
      by (simp add: func_def as)
    moreover have "\<bar>(radians 20 - 1 / 10 ^ 7) - radians 20\<bar> \<le> 1 / 10 ^ 6" by simp
    ultimately show "\<exists>x x0.
           ?S (\<lambda>alt_0. func 0 0 alt_0 (radians (snd r))) g = Some x \<and>
           - (pi / 2) < x \<and> x < pi / 2 \<and>
           func 0 0 x0 (radians (snd r)) = 0 \<and> - (pi / 2) \<le> x0 \<and> x0 \<le> pi / 2 \<and>
           \<bar>x - x0\<bar> \<le> 1 / 10 ^ 6"
      unfolding r using lo hi f0 a
      by (intro exI [of _ "radians 20 - 1 / 10 ^ 7"] exI [of _ "radians 20"]) simp
  qed
  have p: "pymod 10 360 = 10" by (rule pymod_360_id) simp_all
  have h4: "\<forall>r\<in>set [(10 :: real, 20 :: real)]. 0 \<le> snd r" by simp
  have h5: "\<forall>r\<in>set [(10 :: real, 20 :: real)].
              pymod (fst (hd [(10 :: real, 20 :: real)])) 360 - 180 \<le> fst r \<and>
              fst r < pymod (fst (hd [(10 :: real, 20 :: real)])) 360 + 180"
    by (simp add: p)
  from zero_offset_transforms [of "[(10, 20)]" ?S "1 / 10 ^ 6", OF h1 h2 h3]
  obtain az alt0 where az: "norm_angle (map fst [(10 :: real, 20 :: real)]) = Inr az"
    "transform_from_boresight [(10, 20)] 0 0
       = Inr (az, map (\<lambda>r. pymod (snd r) 360) [(10 :: real, 20 :: real)])"
    "transform_to_boresight ?S [(10, 20)] 0 0 = Inr (az, map (\<lambda>a. pymod a 360) alt0)"
    "length alt0 = length [(10 :: real, 20 :: real)]"
    "\<forall>i<length [(10 :: real, 20 :: real)].
        \<bar>alt0 ! i - snd ([(10 :: real, 20 :: real)] ! i)\<bar> \<le> degrees (1 / 10 ^ 6)"
    "(\<forall>r\<in>set [(10 :: real, 20 :: real)]. 0 \<le> snd r) \<longrightarrow>
       map (\<lambda>r. pymod (snd r) 360) [(10 :: real, 20 :: real)] = map snd [(10 :: real, 20 :: real)]"
    "(\<forall>r\<in>set [(10 :: real, 20 :: real)].
              pymod (fst (hd [(10 :: real, 20 :: real)])) 360 - 180 \<le> fst r \<and>
              fst r < pymod (fst (hd [(10 :: real, 20 :: real)])) 360 + 180) \<longrightarrow>
       az = map fst [(10 :: real, 20 :: real)]"
    by (elim exE conjE) (rule that)
  have a10: "az = [10]" using az(7) h5 by simp
  have b: "map (\<lambda>r. pymod (snd r) 360) [(10 :: real, 20 :: real)] = [20]"
    using az(6) h4 by simp
  have fwd: "transform_from_boresight [(10, 20)] 0 0 = Inr ([10], [20])"
    using az(2) unfolding a10 b .
  have l1: "length alt0 = 1" using az(4) by simp
  have c: "\<bar>alt0 ! 0 - 20\<bar> \<le> degrees (1 / 10 ^ 6)" using az(5) by simp
  have inv: "transform_to_boresight ?S [(10, 20)] 0 0 = Inr ([10], map (\<lambda>a. pymod a 360) alt0)"
    using az(3) unfolding a10 .
  show ?thesis
    by (rule conjI [OF fwd]) (rule exI [of _ alt0], rule conjI [OF inv conjI [OF l1 c]])
qed


end
